theory Spec2Isabelle
  imports Main
begin

section \<open>WktParser.load: the orchestration of WKT parsing, shape configuration and layer hand-over\<close>

text \<open>
  The development embeds \<^verbatim>\<open>src/formats/wkt/WktParser.js\<close>: the constructor
  \<^verbatim>\<open>WktParser\<close> and its one method \<^verbatim>\<open>load\<close>. Everything \<^verbatim>\<open>load\<close> calls
  lives outside that file: the tokenizer and grammar parser
  (\<^verbatim>\<open>new WktTokens(text).objects()\<close>), the materializer of a parsed object
  (\<^verbatim>\<open>object.shapes()\<close>), the two caller-supplied callbacks and
  \<^verbatim>\<open>layer.addRenderables\<close>. They are parameters of the model. The parser is a
  function of the text. The materializer, the callbacks and the layer are functions of
  the caller's world \<open>'w\<close>, which they may change and in which they may throw.
  \<^verbatim>\<open>load\<close> keeps no record of what it calls: a call is seen by what it does to the
  world. The array \<^verbatim>\<open>shapes\<close> is one object, handed to the layer and then to the
  completion callback: the layer gives back what it left in it.
  A callback is a function, \<^verbatim>\<open>null\<close> or \<^verbatim>\<open>undefined\<close>, and the layer is an
  object with an \<^verbatim>\<open>addRenderables\<close> method, as the documentation of \<^verbatim>\<open>load\<close>
  types them.
\<close>

subsection \<open>JavaScript values\<close>

text \<open>
  A number is NaN, an infinity, or a sign, a magnitude and an exponent; only its being
  zero or NaN matters here. An object (a function and an array are objects) is the list
  of its properties; the first binding of a name is the property. A property is a data
  property, which holds a value, or an accessor property, whose getter runs at every
  read: it is given by what its successive reads return or throw, and returns
  \<^verbatim>\<open>undefined\<close> after them.
\<close>

datatype jsnumber = NaN | Infinity bool | Finite bool nat int

datatype jsval =
    JSUndefined
  | JSNull
  | JSBoolean bool
  | JSNumber jsnumber
  | JSBigInt int
  | JSString string
  | JSSymbol string
  | JSObject "(string \<times> jsprop) list"
and jsprop =
    Data jsval
  | Accessor "jsread list"
and jsread =
    Returns jsval
  | Throws jsval

datatype error =
    LexError char nat
  | SyntaxError string string nat
  | TypeError
  | Thrown jsval

text \<open>ToBoolean: what \<^verbatim>\<open>if (v)\<close>, \<^verbatim>\<open>v && e\<close> and \<^verbatim>\<open>v || e\<close> test.\<close>

fun truthy :: "jsval \<Rightarrow> bool" where
  "truthy JSUndefined = False"
| "truthy JSNull = False"
| "truthy (JSBoolean b) = b"
| "truthy (JSNumber NaN) = False"
| "truthy (JSNumber (Infinity s)) = True"
| "truthy (JSNumber (Finite s m e)) = (m \<noteq> 0)"
| "truthy (JSBigInt i) = (i \<noteq> 0)"
| "truthy (JSString s) = (s \<noteq> [])"
| "truthy (JSSymbol d) = True"
| "truthy (JSObject ps) = True"

text \<open>The read number \<open>k\<close>, from 0, of a property.\<close>

fun read_prop :: "jsprop \<Rightarrow> nat \<Rightarrow> error + jsval" where
  "read_prop (Data v) k = Inr v"
| "read_prop (Accessor rs) k =
     (if k < length rs
      then (case rs ! k of Returns v \<Rightarrow> Inr v | Throws v \<Rightarrow> Inl (Thrown v))
      else Inr JSUndefined)"

text \<open>
  The read number \<open>k\<close> of \<^verbatim>\<open>v.name\<close>, for the four names \<^verbatim>\<open>load\<close> reads: on
  \<^verbatim>\<open>undefined\<close> and \<^verbatim>\<open>null\<close> it throws a TypeError, on another primitive it
  finds nothing and gives \<^verbatim>\<open>undefined\<close>, on an object it reads the property or
  gives \<^verbatim>\<open>undefined\<close>.
\<close>

fun get_prop :: "jsval \<Rightarrow> string \<Rightarrow> nat \<Rightarrow> error + jsval" where
  "get_prop JSUndefined n k = Inl TypeError"
| "get_prop JSNull n k = Inl TypeError"
| "get_prop (JSObject ps) n k =
     (case map_of ps n of None \<Rightarrow> Inr JSUndefined | Some p \<Rightarrow> read_prop p k)"
| "get_prop v n k = Inr JSUndefined"

definition bind_err :: "error + 'a \<Rightarrow> ('a \<Rightarrow> error + 'b) \<Rightarrow> error + 'b" where
  "bind_err m f = (case m of Inl e \<Rightarrow> Inl e | Inr x \<Rightarrow> f x)"

text \<open>
  \<^verbatim>\<open>configuration && configuration.name\<close>: the left operand when it is falsy, and
  otherwise the first read of the property.
\<close>

definition and_prop :: "jsval \<Rightarrow> string \<Rightarrow> error + jsval" where
  "and_prop configuration n =
     (if truthy configuration then get_prop configuration n 0 else Inr configuration)"

subsection \<open>Shapes, parser object, external functions\<close>

text \<open>
  A shape is a renderable: the four fields \<^verbatim>\<open>load\<close> may assign, and \<open>other\<close> for
  everything else the renderable holds.
\<close>

record 'a shape =
  attributes :: jsval
  highlightAttributes :: jsval
  pickDelegate :: jsval
  userProperties :: jsval
  other :: 'a

record 'o WktParser_obj =
  objects :: "'o list option"
  textRepresentation :: string

definition WktParser :: "string \<Rightarrow> 'o WktParser_obj" where
  "WktParser text = \<lparr>objects = None, textRepresentation = text\<rparr>"

text \<open>
  An external function takes its argument and the caller's world, and gives back what it
  returned or threw, and the world it left.
\<close>

type_synonym ('x, 'r, 'w) extfun = "'x \<Rightarrow> 'w \<Rightarrow> (error + 'r) \<times> 'w"

text \<open>\<^verbatim>\<open>function(){}\<close>\<close>

definition noop :: "('x, jsval, 'w) extfun" where
  "noop x w = (Inr JSUndefined, w)"

text \<open>\<^verbatim>\<open>callback || function(){}\<close>, for a callback that is a function, null or undefined.\<close>

definition or_noop :: "('x, jsval, 'w) extfun option \<Rightarrow> ('x, jsval, 'w) extfun" where
  "or_noop callback = (case callback of None \<Rightarrow> noop | Some f \<Rightarrow> f)"

record ('r, 'w) outcome =
  result :: "error + 'r"
  world :: 'w

subsection \<open>load\<close>

text \<open>
  One of the four conditional assignments of the inner loop's body,
  \<^verbatim>\<open>if (configuration && configuration.name) { shape.name = configuration.name; }\<close>:
  the condition reads the property once, the assignment reads it again.
\<close>

definition assign_if ::
  "jsval \<Rightarrow> string \<Rightarrow> (jsval \<Rightarrow> 'a shape \<Rightarrow> 'a shape) \<Rightarrow> 'a shape \<Rightarrow> error + 'a shape" where
  "assign_if configuration n assign s =
     bind_err (and_prop configuration n) (\<lambda>c.
       if truthy c then bind_err (get_prop configuration n 1) (\<lambda>v. Inr (assign v s))
       else Inr s)"

definition configure :: "jsval \<Rightarrow> 'a shape \<Rightarrow> error + 'a shape" where
  "configure configuration s =
     bind_err (assign_if configuration ''attributes'' (\<lambda>v s. s\<lparr>attributes := v\<rparr>) s) (\<lambda>s.
     bind_err (assign_if configuration ''highlightAttributes'' (\<lambda>v s. s\<lparr>highlightAttributes := v\<rparr>) s) (\<lambda>s.
     bind_err (assign_if configuration ''pickDelegate'' (\<lambda>v s. s\<lparr>pickDelegate := v\<rparr>) s) (\<lambda>s.
     assign_if configuration ''userProperties'' (\<lambda>v s. s\<lparr>userProperties := v\<rparr>) s)))"

text \<open>
  \<^verbatim>\<open>object.shapes().forEach(function(shape){ ... shapes.push(shape); })\<close>, over the
  shapes left, with the array \<open>shapes\<close> built so far.
\<close>

fun inner_forEach ::
  "('o, jsval, 'w) extfun \<Rightarrow> 'o \<Rightarrow> 'a shape list \<Rightarrow> 'a shape list \<Rightarrow> 'w
     \<Rightarrow> ('a shape list, 'w) outcome" where
  "inner_forEach shapeConfigurationCallback object [] shapes w =
     \<lparr>result = Inr shapes, world = w\<rparr>"
| "inner_forEach shapeConfigurationCallback object (s # rest) shapes w =
     (case shapeConfigurationCallback object w of
        (Inl e, w') \<Rightarrow> \<lparr>result = Inl e, world = w'\<rparr>
      | (Inr configuration, w') \<Rightarrow>
          (case configure configuration s of
             Inl e \<Rightarrow> \<lparr>result = Inl e, world = w'\<rparr>
           | Inr s' \<Rightarrow>
               inner_forEach shapeConfigurationCallback object rest (shapes @ [s']) w'))"

text \<open>\<^verbatim>\<open>objects.forEach(function(object){ object.shapes().forEach( ... ); })\<close>\<close>

fun outer_forEach ::
  "('o, 'a shape list, 'w) extfun \<Rightarrow> ('o, jsval, 'w) extfun \<Rightarrow> 'o list \<Rightarrow> 'a shape list \<Rightarrow> 'w
     \<Rightarrow> ('a shape list, 'w) outcome" where
  "outer_forEach shapes_of shapeConfigurationCallback [] shapes w =
     \<lparr>result = Inr shapes, world = w\<rparr>"
| "outer_forEach shapes_of shapeConfigurationCallback (object # rest) shapes w =
     (case shapes_of object w of
        (Inl e, w1) \<Rightarrow> \<lparr>result = Inl e, world = w1\<rparr>
      | (Inr object_shapes, w1) \<Rightarrow>
          (let r1 = inner_forEach shapeConfigurationCallback object object_shapes shapes w1
           in case result r1 of
                Inl e \<Rightarrow> r1
              | Inr shapes' \<Rightarrow>
                  outer_forEach shapes_of shapeConfigurationCallback rest shapes' (world r1)))"

text \<open>
  \<^verbatim>\<open>WktParser.prototype.load\<close>. \<open>tokens_objects\<close> is
  \<^verbatim>\<open>new WktTokens(text).objects()\<close> and \<open>shapes_of\<close> is \<^verbatim>\<open>object.shapes()\<close>.
  \<open>layer\<close> is \<^verbatim>\<open>layer.addRenderables\<close>: its value is not used, and what it gives
  back here is the array \<^verbatim>\<open>shapes\<close> as it left it, which is what the completion
  callback is then given.
\<close>

definition load ::
  "(string \<Rightarrow> error + 'o list) \<Rightarrow> ('o, 'a shape list, 'w) extfun \<Rightarrow> 'o WktParser_obj
     \<Rightarrow> ('a shape list, jsval, 'w) extfun option \<Rightarrow> ('o, jsval, 'w) extfun option
     \<Rightarrow> ('a shape list, 'a shape list, 'w) extfun \<Rightarrow> 'w \<Rightarrow> ('o list, 'w) outcome" where
  "load tokens_objects shapes_of this parserCompletionCallback shapeConfigurationCallback layer w =
     (case tokens_objects (textRepresentation this) of
        Inl e \<Rightarrow> \<lparr>result = Inl e, world = w\<rparr>
      | Inr objs \<Rightarrow>
          (let shapeConfigurationCallback = or_noop shapeConfigurationCallback;
               parserCompletionCallback = or_noop parserCompletionCallback;
               r1 = outer_forEach shapes_of shapeConfigurationCallback objs [] w
           in case result r1 of
                Inl e \<Rightarrow> \<lparr>result = Inl e, world = world r1\<rparr>
              | Inr shapes \<Rightarrow>
                  (case layer shapes (world r1) of
                     (Inl e, w2) \<Rightarrow> \<lparr>result = Inl e, world = w2\<rparr>
                   | (Inr shapes', w2) \<Rightarrow>
                       (case parserCompletionCallback shapes' w2 of
                          (Inl e, w3) \<Rightarrow> \<lparr>result = Inl e, world = w3\<rparr>
                        | (Inr u, w3) \<Rightarrow> \<lparr>result = Inr objs, world = w3\<rparr>))))"

subsection \<open>A caller that records the calls it receives\<close>

text \<open>
  The calls a caller can receive from \<^verbatim>\<open>load\<close>, each with its argument and with
  what it returned or threw: \<^verbatim>\<open>object.shapes()\<close>, the configuration callback,
  \<^verbatim>\<open>layer.addRenderables\<close> (given the array, giving back what it left in it) and the
  completion callback.
\<close>

datatype ('o, 'a) event =
    ShapesCall 'o "error + 'a shape list"
  | ConfigCall 'o "error + jsval"
  | AddRenderables "'a shape list" "error + 'a shape list"
  | CompletionCall "'a shape list" "error + jsval"

text \<open>
  An external function that, each time it is applied, does what \<open>f\<close> does and appends
  the call to a list kept beside the world of \<open>f\<close>; \<open>f\<close> cannot write to the list.
\<close>

definition recording ::
  "('x \<Rightarrow> error + 'r \<Rightarrow> 'e) \<Rightarrow> ('x, 'r, 'w) extfun \<Rightarrow> ('x, 'r, 'w \<times> 'e list) extfun" where
  "recording ev f x wl = (case f x (fst wl) of (r, w') \<Rightarrow> (r, (w', snd wl @ [ev x r])))"

text \<open>
  \<^verbatim>\<open>load\<close> run for a caller whose materializer, callbacks and layer record the calls
  they receive, from a world with no call recorded.
\<close>

definition observed ::
  "(string \<Rightarrow> error + 'o list) \<Rightarrow> ('o, 'a shape list, 'w) extfun \<Rightarrow> 'o WktParser_obj
     \<Rightarrow> ('a shape list, jsval, 'w) extfun \<Rightarrow> ('o, jsval, 'w) extfun
     \<Rightarrow> ('a shape list, 'a shape list, 'w) extfun \<Rightarrow> 'w
     \<Rightarrow> ('o list, 'w \<times> ('o, 'a) event list) outcome" where
  "observed tokens_objects shapes_of this parserCompletionCallback shapeConfigurationCallback layer w =
     load tokens_objects (recording ShapesCall shapes_of) this
       (Some (recording CompletionCall parserCompletionCallback))
       (Some (recording ConfigCall shapeConfigurationCallback))
       (recording AddRenderables layer) (w, [])"

text \<open>The calls recorded in the world a run left.\<close>

definition calls :: "('r, 'w \<times> 'e list) outcome \<Rightarrow> 'e list" where
  "calls r = snd (world r)"

fun config_arg :: "('o, 'a) event \<Rightarrow> 'o list" where
  "config_arg (ConfigCall obj r) = [obj]"
| "config_arg e = []"

fun config_return :: "('o, 'a) event \<Rightarrow> jsval list" where
  "config_return (ConfigCall obj (Inr c)) = [c]"
| "config_return e = []"

fun shapes_call :: "('o, 'a) event \<Rightarrow> 'o list" where
  "shapes_call (ShapesCall obj r) = [obj]"
| "shapes_call e = []"

fun shapes_return :: "('o, 'a) event \<Rightarrow> ('o \<times> 'a shape list) list" where
  "shapes_return (ShapesCall obj (Inr ss)) = [(obj, ss)]"
| "shapes_return e = []"

fun add_call :: "('o, 'a) event \<Rightarrow> 'a shape list list" where
  "add_call (AddRenderables ss r) = [ss]"
| "add_call e = []"

fun add_return :: "('o, 'a) event \<Rightarrow> 'a shape list list" where
  "add_return (AddRenderables ss (Inr ss')) = [ss']"
| "add_return e = []"

fun completion_call :: "('o, 'a) event \<Rightarrow> 'a shape list list" where
  "completion_call (CompletionCall ss r) = [ss]"
| "completion_call e = []"

text \<open>The arguments of the configuration callback's invocations, in order.\<close>

definition config_args :: "('o, 'a) event list \<Rightarrow> 'o list" where
  "config_args tr = concat (map config_arg tr)"

text \<open>What the configuration callback returned, invocation by invocation.\<close>

definition config_returns :: "('o, 'a) event list \<Rightarrow> jsval list" where
  "config_returns tr = concat (map config_return tr)"

text \<open>The objects whose \<^verbatim>\<open>shapes()\<close> was called, in order.\<close>

definition materialized :: "('o, 'a) event list \<Rightarrow> 'o list" where
  "materialized tr = concat (map shapes_call tr)"

text \<open>The objects whose \<^verbatim>\<open>shapes()\<close> returned, each with the shapes it returned.\<close>

definition materializations :: "('o, 'a) event list \<Rightarrow> ('o \<times> 'a shape list) list" where
  "materializations tr = concat (map shapes_return tr)"

text \<open>All the shapes that the calls of \<^verbatim>\<open>shapes()\<close> returned, in order.\<close>

definition all_shapes :: "('o, 'a) event list \<Rightarrow> 'a shape list" where
  "all_shapes tr = concat (map snd (materializations tr))"

text \<open>One entry per materialized shape: the object the shape came from.\<close>

definition per_shape :: "('o, 'a) event list \<Rightarrow> 'o list" where
  "per_shape tr = concat (map (\<lambda>m. replicate (length (snd m)) (fst m)) (materializations tr))"

text \<open>
  The arrays given to \<^verbatim>\<open>layer.addRenderables\<close>, the arrays as it left them, and the
  arrays given to the completion callback.
\<close>

definition added :: "('o, 'a) event list \<Rightarrow> 'a shape list list" where
  "added tr = concat (map add_call tr)"

definition left :: "('o, 'a) event list \<Rightarrow> 'a shape list list" where
  "left tr = concat (map add_return tr)"

definition completed :: "('o, 'a) event list \<Rightarrow> 'a shape list list" where
  "completed tr = concat (map completion_call tr)"

subsection \<open>Notions the properties are stated with\<close>

text \<open>The shape \<open>configure\<close> leaves when no read throws.\<close>

definition configured :: "jsval \<Rightarrow> 'a shape \<Rightarrow> 'a shape" where
  "configured c s = (case configure c s of Inl e \<Rightarrow> s | Inr s' \<Rightarrow> s')"

text \<open>
  What one conditional assignment reads: an error when a read throws, nothing when the
  condition is falsy, and otherwise the value it assigns.
\<close>

definition guarded_read :: "jsval \<Rightarrow> string \<Rightarrow> error + jsval option" where
  "guarded_read c n =
     bind_err (and_prop c n) (\<lambda>g.
       if truthy g then bind_err (get_prop c n 1) (\<lambda>v. Inr (Some v)) else Inr None)"

text \<open>The value a field has after one conditional assignment, given the one it had.\<close>

definition pick :: "jsval \<Rightarrow> string \<Rightarrow> jsval \<Rightarrow> jsval" where
  "pick c n old = (case guarded_read c n of Inr (Some v) \<Rightarrow> v | _ \<Rightarrow> old)"

text \<open>The recognized fields of a configuration record, and the shape field each one names.\<close>

definition recognized :: "string list" where
  "recognized = [''attributes'', ''highlightAttributes'', ''pickDelegate'', ''userProperties'']"

definition shape_field :: "string \<Rightarrow> 'a shape \<Rightarrow> jsval" where
  "shape_field n s =
     (if n = ''attributes'' then attributes s
      else if n = ''highlightAttributes'' then highlightAttributes s
      else if n = ''pickDelegate'' then pickDelegate s
      else if n = ''userProperties'' then userProperties s
      else JSUndefined)"

text \<open>A field is present in a configuration when the configuration is an object that has it.\<close>

fun has_prop :: "jsval \<Rightarrow> string \<Rightarrow> bool" where
  "has_prop (JSObject ps) n = (map_of ps n \<noteq> None)"
| "has_prop v n = False"

text \<open>A field that is not an accessor property of the configuration.\<close>

fun data_prop :: "jsval \<Rightarrow> string \<Rightarrow> bool" where
  "data_prop (JSObject ps) n = (case map_of ps n of Some (Accessor rs) \<Rightarrow> False | _ \<Rightarrow> True)"
| "data_prop v n = True"

text \<open>The record without a field.\<close>

fun omit :: "string \<Rightarrow> jsval \<Rightarrow> jsval" where
  "omit n (JSObject ps) = JSObject (filter (\<lambda>p. fst p \<noteq> n) ps)"
| "omit n v = v"

text \<open>An external function without effects: it returns a function of its argument.\<close>

definition returning :: "('x \<Rightarrow> 'r) \<Rightarrow> ('x, 'r, 'w) extfun" where
  "returning f x w = (Inr (f x), w)"

text \<open>An external function that returns normally on every argument, in every world.\<close>

definition never_throws :: "('x, 'r, 'w) extfun \<Rightarrow> bool" where
  "never_throws f = (\<forall>x w. \<exists>v. fst (f x w) = Inr v)"

text \<open>A configuration whose recognized fields are read without a throw.\<close>

definition readable :: "jsval \<Rightarrow> bool" where
  "readable c = (\<forall>n \<in> set recognized. \<exists>v. guarded_read c n = Inr v)"

text \<open>A configuration callback that returns readable configurations only.\<close>

definition returns_readable :: "('x, jsval, 'w) extfun \<Rightarrow> bool" where
  "returns_readable f = (\<forall>x w c. fst (f x w) = Inr c \<longrightarrow> readable c)"

text \<open>A layer that leaves the array it is given as it was.\<close>

definition keeps_array :: "('a shape list, 'a shape list, 'w) extfun \<Rightarrow> bool" where
  "keeps_array layer = (\<forall>ss w ss'. fst (layer ss w) = Inr ss' \<longrightarrow> ss' = ss)"

subsection \<open>Geometry objects and their shapes\<close>

text \<open>
  Modelled from the spec: the geometry objects and their \<^verbatim>\<open>shapes()\<close> method are
  defined in files that are not among the sources (\<^verbatim>\<open>WktTokens.js\<close> and the
  geometry classes it builds). \<open>geometry\<close> is the tagged union of the spec's data model,
  each node with its dimensionality; a Point without coordinate and a geometry with an
  empty sequence are the empty ones. \<open>materialize\<close> is the spec's shape materializer: a
  non-empty Point, LineString or Polygon gives one primitive, an empty one gives none, a
  Multi-geometry or a GeometryCollection gives the concatenation, in order, of what its
  children give. A new shape has no attributes of its own here.
\<close>

datatype dimensionality = XY | XYZ | XYM | XYZM

datatype 'n geometry =
    Point dimensionality "'n list option"
  | LineString dimensionality "'n list list"
  | Polygon dimensionality "'n list list list"
  | MultiPoint dimensionality "'n geometry list"
  | MultiLineString dimensionality "'n geometry list"
  | MultiPolygon dimensionality "'n geometry list"
  | GeometryCollection dimensionality "'n geometry list"

datatype 'n primitive =
    Marker "'n list"
  | Polyline "'n list list"
  | FilledPolygon "'n list list" "'n list list list"

definition new_shape :: "'a \<Rightarrow> 'a shape" where
  "new_shape p = \<lparr>attributes = JSNull, highlightAttributes = JSNull, pickDelegate = JSNull,
     userProperties = JSNull, other = p\<rparr>"

fun materialize :: "'n geometry \<Rightarrow> 'n primitive shape list" where
  "materialize (Point d None) = []"
| "materialize (Point d (Some c)) = [new_shape (Marker c)]"
| "materialize (LineString d []) = []"
| "materialize (LineString d cs) = [new_shape (Polyline cs)]"
| "materialize (Polygon d []) = []"
| "materialize (Polygon d (exterior # holes)) = [new_shape (FilledPolygon exterior holes)]"
| "materialize (MultiPoint d gs) = concat (map materialize gs)"
| "materialize (MultiLineString d gs) = concat (map materialize gs)"
| "materialize (MultiPolygon d gs) = concat (map materialize gs)"
| "materialize (GeometryCollection d gs) = concat (map materialize gs)"

text \<open>The sample collection of the spec, and a text of two of the spec's statements.\<close>

definition sample_collection :: "int geometry" where
  "sample_collection =
     GeometryCollection XY [Point XY (Some [1, 2]), LineString XY [[0, 0], [1, 1]]]"

definition two_statements :: string where
  "two_statements = ''POINT (19 23) GEOMETRYCOLLECTION (POINT (1 2), LINESTRING (0 0, 1 1))''"

text \<open>
  Modelled from the spec: the tokenizer and grammar parser
  (\<^verbatim>\<open>new WktTokens(text).objects()\<close>) are not among the sources. \<open>sample_objects\<close>
  is not a parser: it tabulates the parse the spec gives for each of its sample texts, and
  for the two statements in sequence the sequence of their two roots; a text outside the
  table is not in its domain, and is answered with a syntax error.
\<close>

definition sample_objects :: "string \<Rightarrow> error + int geometry list" where
  "sample_objects text =
     (if text = ''POINT (19 23)'' then Inr [Point XY (Some [19, 23])]
      else if text = ''POINT EMPTY'' then Inr [Point XY None]
      else if text = ''LINESTRING (0 0, 1 1, 2 2)''
        then Inr [LineString XY [[0, 0], [1, 1], [2, 2]]]
      else if text = ''POLYGON ((0 0, 4 0, 4 4, 0 4, 0 0), (1 1, 2 1, 2 2, 1 2, 1 1))''
        then Inr [Polygon XY [[[0, 0], [4, 0], [4, 4], [0, 4], [0, 0]],
                              [[1, 1], [2, 1], [2, 2], [1, 2], [1, 1]]]]
      else if text = ''GEOMETRYCOLLECTION (POINT (1 2), LINESTRING (0 0, 1 1))''
        then Inr [sample_collection]
      else if text = ''POINT Z (1 2 3)'' then Inr [Point XYZ (Some [1, 2, 3])]
      else if text = ''POINTZ(1 2 3)'' then Inr [Point XYZ (Some [1, 2, 3])]
      else if text = two_statements then Inr [Point XY (Some [19, 23]), sample_collection]
      else if text = ''LINESTRING (0 0)'' then Inl (SyntaxError ''coordinate'' '')'' 14)
      else if text = ''POINT (1 2'' then Inl (SyntaxError '')'' ''end of input'' 10)
      else Inl (SyntaxError ''sample text'' text 0))"

subsection \<open>Sample callers\<close>

text \<open>
  The configuration callback of the class comment of \<^verbatim>\<open>WktParser\<close>: it returns a
  record with red attributes for a point and nothing for another object.
\<close>

definition red_attributes :: jsval where
  "red_attributes = JSObject [(''fontColor'', Data (JSString ''red''))]"

definition example_record :: "'n geometry \<Rightarrow> jsval" where
  "example_record g =
     (case g of Point d c \<Rightarrow> JSObject [(''attributes'', Data red_attributes)]
      | _ \<Rightarrow> JSUndefined)"

definition example_configuration :: "('n geometry, jsval, 'w) extfun" where
  "example_configuration = returning example_record"

text \<open>
  A layer that keeps the renderables it is given: the caller's world is the list of the
  layer's renderables, and the array it is given is left as it was.
\<close>

definition example_layer :: "('a shape list, 'a shape list, 'a shape list) extfun" where
  "example_layer renderables w = (Inr renderables, w @ renderables)"

text \<open>
  Two layers that keep the renderables and change the array they are given: one takes
  the renderables out of it, the other reverses it.
\<close>

definition clearing_layer :: "('a shape list, 'a shape list, 'a shape list) extfun" where
  "clearing_layer renderables w = (Inr [], w @ renderables)"

definition reversing_layer :: "('a shape list, 'a shape list, 'a shape list) extfun" where
  "reversing_layer renderables w = (Inr (rev renderables), w @ renderables)"

text \<open>
  A configuration record with red attributes and with its three other recognized fields
  falsy: \<^verbatim>\<open>null\<close>, \<^verbatim>\<open>0\<close> and the empty string.
\<close>

definition falsy_record :: jsval where
  "falsy_record = JSObject [(''attributes'', Data red_attributes),
     (''highlightAttributes'', Data JSNull),
     (''pickDelegate'', Data (JSNumber (Finite False 0 0))),
     (''userProperties'', Data (JSString []))]"

text \<open>
  A configuration record whose \<^verbatim>\<open>attributes\<close> is an accessor property: its getter
  returns red attributes at the first read and the empty string at the second.
\<close>

definition changing_record :: jsval where
  "changing_record =
     JSObject [(''attributes'', Accessor [Returns red_attributes, Returns (JSString [])])]"

section \<open>Properties of the model\<close>

subsection \<open>What one conditional assignment does to a field\<close>

lemma assign_if_guarded:
  "assign_if c n assign s =
     (case guarded_read c n of Inl e \<Rightarrow> Inl e | Inr None \<Rightarrow> Inr s | Inr (Some v) \<Rightarrow> Inr (assign v s))"
  by (auto simp: assign_if_def guarded_read_def bind_err_def split: sum.splits)

lemma configure_Inr_iff:
  "(\<exists>s'. configure c s = Inr s') = readable c"
  by (auto simp: configure_def assign_if_guarded bind_err_def readable_def recognized_def
      split: sum.splits option.splits)

lemma configure_eq:
  "configure c s = Inr s' \<Longrightarrow>
     s' = s\<lparr>attributes := pick c ''attributes'' (attributes s),
       highlightAttributes := pick c ''highlightAttributes'' (highlightAttributes s),
       pickDelegate := pick c ''pickDelegate'' (pickDelegate s),
       userProperties := pick c ''userProperties'' (userProperties s)\<rparr>"
  by (auto simp: configure_def assign_if_guarded bind_err_def pick_def
      split: sum.splits option.splits)

lemma configure_configured: "configure c s = Inr s' \<Longrightarrow> configured c s = s'"
  by (simp add: configured_def)

lemma readable_configure: "readable c \<Longrightarrow> configure c s = Inr (configured c s)"
  using configure_Inr_iff[of c s] by (auto simp: configured_def)

lemma other_configure: "configure c s = Inr s' \<Longrightarrow> other s' = other s"
  by (drule configure_eq) simp

lemma shape_field_configure:
  "configure c s = Inr s' \<Longrightarrow> n \<in> set recognized \<Longrightarrow>
     shape_field n s' = pick c n (shape_field n s)"
  by (drule configure_eq) (auto simp: recognized_def shape_field_def)

lemma guarded_read_absent: "\<not> has_prop c n \<Longrightarrow> guarded_read c n = Inr None"
  by (cases c) (auto simp: guarded_read_def and_prop_def bind_err_def)

lemma guarded_read_Some:
  "guarded_read c n = Inr (Some v) \<Longrightarrow>
     has_prop c n \<and> get_prop c n 1 = Inr v \<and> (\<exists>g. get_prop c n 0 = Inr g \<and> truthy g)"
  by (cases c)
     (auto simp: guarded_read_def and_prop_def bind_err_def split: if_splits sum.splits option.splits)

lemma guarded_read_falsy:
  "get_prop c n 0 = Inr g \<Longrightarrow> \<not> truthy g \<Longrightarrow> guarded_read c n = Inr None"
  by (auto simp: guarded_read_def and_prop_def bind_err_def)

lemma guarded_read_data:
  "data_prop c n \<Longrightarrow> guarded_read c n = Inr (Some v) \<Longrightarrow> truthy v"
  by (cases c)
     (auto simp: guarded_read_def and_prop_def bind_err_def
       split: if_splits sum.splits option.splits jsprop.splits)

lemma pick_absent: "\<not> has_prop c n \<Longrightarrow> pick c n old = old"
  by (simp add: pick_def guarded_read_absent)

lemma pick_changed:
  "pick c n old \<noteq> old \<Longrightarrow>
     has_prop c n \<and> get_prop c n 1 = Inr (pick c n old) \<and> (\<exists>g. get_prop c n 0 = Inr g \<and> truthy g)"
  using guarded_read_Some[of c n]
  by (auto simp: pick_def split: sum.splits option.splits)

lemma pick_falsy: "get_prop c n 0 = Inr g \<Longrightarrow> \<not> truthy g \<Longrightarrow> pick c n old = old"
  by (simp add: pick_def guarded_read_falsy)

lemma pick_data: "data_prop c n \<Longrightarrow> pick c n old \<noteq> old \<Longrightarrow> truthy (pick c n old)"
  using guarded_read_data[of c n]
  by (auto simp: pick_def split: sum.splits option.splits)

lemma map_of_omit:
  "map_of (filter (\<lambda>p. fst p \<noteq> n) ps) m = (if m = n then None else map_of ps m)"
  by (induction ps) auto

lemma get_prop_omit:
  "get_prop (omit n c) m k = (if m = n \<and> has_prop c n then Inr JSUndefined else get_prop c m k)"
  by (cases c) (auto simp: map_of_omit)

lemma truthy_omit: "truthy (omit n c) = truthy c"
  by (cases c) auto

lemma guarded_read_omit:
  assumes "guarded_read c n = Inr None"
  shows "guarded_read (omit n c) m = guarded_read c m"
proof (cases "m = n \<and> has_prop c n")
  case True
  then have "get_prop (omit n c) m 0 = Inr JSUndefined" by (simp add: get_prop_omit)
  then have "guarded_read (omit n c) m = Inr None" by (rule guarded_read_falsy) simp
  with True assms show ?thesis by simp
next
  case False
  then have eq: "get_prop (omit n c) m = get_prop c m" by (auto simp: get_prop_omit)
  show ?thesis unfolding guarded_read_def and_prop_def truthy_omit eq
    by (simp add: bind_err_def truthy_omit)
qed

lemma configure_omit:
  "guarded_read c n = Inr None \<Longrightarrow> configure (omit n c) s = configure c s"
  by (simp add: configure_def assign_if_guarded guarded_read_omit)

lemma configure_undefined: "configure JSUndefined s = Inr s"
  by (simp add: configure_def assign_if_def and_prop_def bind_err_def)

subsection \<open>Reading a record of calls\<close>

lemma config_args_simps [simp]:
  "config_args [] = []" "config_args (e # tr) = config_arg e @ config_args tr"
  "config_args (tr @ tr') = config_args tr @ config_args tr'"
  by (simp_all add: config_args_def)

lemma config_returns_simps [simp]:
  "config_returns [] = []" "config_returns (e # tr) = config_return e @ config_returns tr"
  "config_returns (tr @ tr') = config_returns tr @ config_returns tr'"
  by (simp_all add: config_returns_def)

lemma materialized_simps [simp]:
  "materialized [] = []" "materialized (e # tr) = shapes_call e @ materialized tr"
  "materialized (tr @ tr') = materialized tr @ materialized tr'"
  by (simp_all add: materialized_def)

lemma materializations_simps [simp]:
  "materializations [] = []" "materializations (e # tr) = shapes_return e @ materializations tr"
  "materializations (tr @ tr') = materializations tr @ materializations tr'"
  by (simp_all add: materializations_def)

lemma all_shapes_simps [simp]:
  "all_shapes [] = []"
  "all_shapes (e # tr) = concat (map snd (shapes_return e)) @ all_shapes tr"
  "all_shapes (tr @ tr') = all_shapes tr @ all_shapes tr'"
  by (simp_all add: all_shapes_def)

lemma per_shape_simps [simp]:
  "per_shape [] = []"
  "per_shape (e # tr) = concat (map (\<lambda>m. replicate (length (snd m)) (fst m)) (shapes_return e)) @ per_shape tr"
  "per_shape (tr @ tr') = per_shape tr @ per_shape tr'"
  by (simp_all add: per_shape_def)

lemma added_simps [simp]:
  "added [] = []" "added (e # tr) = add_call e @ added tr"
  "added (tr @ tr') = added tr @ added tr'"
  by (simp_all add: added_def)

lemma left_simps [simp]:
  "left [] = []" "left (e # tr) = add_return e @ left tr"
  "left (tr @ tr') = left tr @ left tr'"
  by (simp_all add: left_def)

lemma completed_simps [simp]:
  "completed [] = []" "completed (e # tr) = completion_call e @ completed tr"
  "completed (tr @ tr') = completed tr @ completed tr'"
  by (simp_all add: completed_def)

subsection \<open>The inner loop for a recording callback\<close>

lemma recording_apply:
  "recording ev f x (w, l) = (case f x w of (r, w') \<Rightarrow> (r, (w', l @ [ev x r])))"
  by (simp add: recording_def)

text \<open>Calls recorded before a loop starts stay in front of those it adds.\<close>

lemma inner_forEach_recorded_before:
  "inner_forEach (recording ev cb) obj ss acc (w, l) =
     \<lparr>result = result (inner_forEach (recording ev cb) obj ss acc (w, [])),
      world = (fst (world (inner_forEach (recording ev cb) obj ss acc (w, []))),
               l @ snd (world (inner_forEach (recording ev cb) obj ss acc (w, []))))\<rparr>"
proof (induction ss arbitrary: acc w l)
  case Nil
  show ?case by simp
next
  case (Cons s ss)
  obtain r w' where cb: "cb obj w = (r, w')" by (cases "cb obj w")
  show ?case
  proof (cases r)
    case (Inl e)
    with cb show ?thesis by (simp add: recording_apply)
  next
    case (Inr c)
    show ?thesis
    proof (cases "configure c s")
      case (Inl e)
      with cb Inr show ?thesis by (simp add: recording_apply)
    next
      case s': (Inr s')
      have 1: "inner_forEach (recording ev cb) obj (s # ss) acc (w, l)
          = inner_forEach (recording ev cb) obj ss (acc @ [s']) (w', l @ [ev obj (Inr c)])"
        using cb Inr s' by (simp add: recording_apply)
      have 2: "inner_forEach (recording ev cb) obj (s # ss) acc (w, [])
          = inner_forEach (recording ev cb) obj ss (acc @ [s']) (w', [ev obj (Inr c)])"
        using cb Inr s' by (simp add: recording_apply)
      let ?r0 = "inner_forEach (recording ev cb) obj ss (acc @ [s']) (w', [])"
      have a: "inner_forEach (recording ev cb) obj ss (acc @ [s']) (w', l @ [ev obj (Inr c)])
          = \<lparr>result = result ?r0,
             world = (fst (world ?r0), (l @ [ev obj (Inr c)]) @ snd (world ?r0))\<rparr>"
        by (rule Cons.IH)
      have b: "inner_forEach (recording ev cb) obj ss (acc @ [s']) (w', [ev obj (Inr c)])
          = \<lparr>result = result ?r0,
             world = (fst (world ?r0), [ev obj (Inr c)] @ snd (world ?r0))\<rparr>"
        by (rule Cons.IH)
      show ?thesis unfolding 1 2 a b by simp
    qed
  qed
qed

text \<open>The recording callback runs the loop as the callback itself does.\<close>

lemma inner_forEach_recording:
  "result (inner_forEach (recording ev cb) obj ss acc (w, l)) = result (inner_forEach cb obj ss acc w)
   \<and> fst (world (inner_forEach (recording ev cb) obj ss acc (w, l))) = world (inner_forEach cb obj ss acc w)"
proof (induction ss arbitrary: acc w l)
  case Nil
  show ?case by simp
next
  case (Cons s ss)
  obtain r w' where cb: "cb obj w = (r, w')" by (cases "cb obj w")
  show ?case using cb Cons.IH
    by (cases r; cases "configure (projr r) s") (simp_all add: recording_apply)
qed

lemma inner_forEach_step:
  assumes "cb obj w = (Inr c, w')" and "configure c s = Inr s'"
    and "r0 = inner_forEach (recording ConfigCall cb) obj ss (acc @ [s']) (w', [])"
  shows "inner_forEach (recording ConfigCall cb) obj (s # ss) acc (w, [])
          = \<lparr>result = result r0,
             world = (fst (world r0), ConfigCall obj (Inr c) # snd (world r0))\<rparr>"
  using assms
  by (simp add: recording_apply
      inner_forEach_recorded_before[of ConfigCall cb obj ss "acc @ [s']" w' "[ConfigCall obj (Inr c)]"])

lemma inner_forEach_calls:
  fixes r :: "('a shape list, 'w \<times> ('o, 'b) event list) outcome"
  assumes "r = inner_forEach (recording ConfigCall cb) obj ss acc (w, [])"
  shows "materializations (snd (world r)) = []
   \<and> materialized (snd (world r)) = []
   \<and> added (snd (world r)) = []
   \<and> left (snd (world r)) = []
   \<and> completed (snd (world r)) = []
   \<and> (\<exists>k\<le>length ss. config_args (snd (world r)) = replicate k obj)"
  using assms
proof (induction ss arbitrary: acc w r)
  case Nil
  then show ?case by simp
next
  case (Cons s ss)
  obtain x w' where cb: "cb obj w = (x, w')" by (cases "cb obj w")
  have one: "\<exists>k\<le>Suc (length ss). [obj] = replicate k obj"
    by (rule exI[of _ "Suc 0"]) simp
  show ?case
  proof (cases x)
    case (Inl e)
    with cb one Cons.prems show ?thesis by (simp add: recording_apply)
  next
    case (Inr c)
    show ?thesis
    proof (cases "configure c s")
      case (Inl e)
      with cb Inr one Cons.prems show ?thesis by (simp add: recording_apply)
    next
      case s': (Inr s')
      define r0 :: "('a shape list, 'w \<times> ('o, 'b) event list) outcome"
        where "r0 = inner_forEach (recording ConfigCall cb) obj ss (acc @ [s']) (w', [])"
      have step: "r = \<lparr>result = result r0,
             world = (fst (world r0), ConfigCall obj (Inr c) # snd (world r0))\<rparr>"
        unfolding Cons.prems using cb Inr s' r0_def by (intro inner_forEach_step) simp_all
      note ih = Cons.IH[OF r0_def]
      then obtain k where
        k: "k \<le> length ss" "config_args (snd (world r0)) = replicate k obj" by blast
      then have "\<exists>k'\<le>Suc (length ss). obj # config_args (snd (world r0)) = replicate k' obj"
        by (intro exI[of _ "Suc k"]) simp
      with ih show ?thesis unfolding step by simp
    qed
  qed
qed

lemma inner_forEach_Inr:
  fixes r :: "('a shape list, 'w \<times> ('o, 'b) event list) outcome"
  assumes "r = inner_forEach (recording ConfigCall cb) obj ss acc (w, [])"
    and "result r = Inr out"
  shows "config_args (snd (world r)) = replicate (length ss) obj
     \<and> length (config_returns (snd (world r))) = length ss
     \<and> out = acc @ map2 configured (config_returns (snd (world r))) ss
     \<and> list_all readable (config_returns (snd (world r)))"
  using assms
proof (induction ss arbitrary: acc w r)
  case Nil
  then show ?case by simp
next
  case (Cons s ss)
  obtain x w' where cb: "cb obj w = (x, w')" by (cases "cb obj w")
  show ?case
  proof (cases x)
    case (Inl e)
    with cb Cons.prems show ?thesis by (simp add: recording_apply)
  next
    case (Inr c)
    show ?thesis
    proof (cases "configure c s")
      case (Inl e)
      with cb Inr Cons.prems show ?thesis by (simp add: recording_apply)
    next
      case s': (Inr s')
      define r0 :: "('a shape list, 'w \<times> ('o, 'b) event list) outcome"
        where "r0 = inner_forEach (recording ConfigCall cb) obj ss (acc @ [s']) (w', [])"
      have step: "r = \<lparr>result = result r0,
             world = (fst (world r0), ConfigCall obj (Inr c) # snd (world r0))\<rparr>"
        unfolding Cons.prems(1) using cb Inr s' r0_def by (intro inner_forEach_step) simp_all
      from Cons.prems(2) have "result r0 = Inr out" unfolding step by simp
      note ih = Cons.IH[OF r0_def this]
      from s' have c: "configured c s = s'" "readable c"
        using configure_Inr_iff[of c s] by (auto simp: configured_def)
      from ih c show ?thesis unfolding step by simp
    qed
  qed
qed

subsection \<open>The outer loop for a recording materializer and callback\<close>

lemma outer_forEach_throws:
  "S obj w = (Inl e, w1) \<Longrightarrow>
     outer_forEach S cb (obj # objs) acc w = \<lparr>result = Inl e, world = w1\<rparr>"
  by simp

lemma outer_forEach_stops:
  "S obj w = (Inr ss, w1) \<Longrightarrow> result (inner_forEach cb obj ss acc w1) = Inl e \<Longrightarrow>
     outer_forEach S cb (obj # objs) acc w = inner_forEach cb obj ss acc w1"
  by (simp add: Let_def)

lemma outer_forEach_goes_on:
  "S obj w = (Inr ss, w1) \<Longrightarrow> result (inner_forEach cb obj ss acc w1) = Inr acc' \<Longrightarrow>
     outer_forEach S cb (obj # objs) acc w
       = outer_forEach S cb objs acc' (world (inner_forEach cb obj ss acc w1))"
  by (simp add: Let_def)

lemma outer_forEach_recorded_before:
  "outer_forEach (recording evs S) (recording evc cb) objs acc (w, l) =
     \<lparr>result = result (outer_forEach (recording evs S) (recording evc cb) objs acc (w, [])),
      world = (fst (world (outer_forEach (recording evs S) (recording evc cb) objs acc (w, []))),
               l @ snd (world (outer_forEach (recording evs S) (recording evc cb) objs acc (w, []))))\<rparr>"
proof (induction objs arbitrary: acc w l)
  case Nil
  show ?case by simp
next
  case (Cons obj objs)
  obtain x w1 where S: "S obj w = (x, w1)" by (cases "S obj w")
  show ?case
  proof (cases x)
    case (Inl e)
    with S show ?thesis by (simp add: recording_apply)
  next
    case (Inr ss)
    let ?e = "evs obj (Inr ss)"
    let ?r1 = "inner_forEach (recording evc cb) obj ss acc (w1, [])"
    from S Inr have Sl: "recording evs S obj (w, l) = (Inr ss, (w1, l @ [?e]))"
      and S0: "recording evs S obj (w, []) = (Inr ss, (w1, [?e]))"
      by (simp_all add: recording_apply)
    have i1: "inner_forEach (recording evc cb) obj ss acc (w1, l @ [?e])
        = \<lparr>result = result ?r1, world = (fst (world ?r1), (l @ [?e]) @ snd (world ?r1))\<rparr>"
      by (rule inner_forEach_recorded_before)
    have i2: "inner_forEach (recording evc cb) obj ss acc (w1, [?e])
        = \<lparr>result = result ?r1, world = (fst (world ?r1), [?e] @ snd (world ?r1))\<rparr>"
      by (rule inner_forEach_recorded_before)
    show ?thesis
    proof (cases "result ?r1")
      case (Inl e)
      have lhs: "outer_forEach (recording evs S) (recording evc cb) (obj # objs) acc (w, l)
          = inner_forEach (recording evc cb) obj ss acc (w1, l @ [?e])"
        by (rule outer_forEach_stops[where S="recording evs S" and w="(w, l)", OF Sl])
           (simp add: i1 Inl)
      have rhs: "outer_forEach (recording evs S) (recording evc cb) (obj # objs) acc (w, [])
          = inner_forEach (recording evc cb) obj ss acc (w1, [?e])"
        by (rule outer_forEach_stops[where S="recording evs S" and w="(w, [])", OF S0])
           (simp add: i2 Inl)
      show ?thesis unfolding lhs rhs i1 i2 by simp
    next
      case acc': (Inr acc')
      let ?r2 = "outer_forEach (recording evs S) (recording evc cb) objs acc' (fst (world ?r1), [])"
      have lhs: "outer_forEach (recording evs S) (recording evc cb) (obj # objs) acc (w, l)
          = outer_forEach (recording evs S) (recording evc cb) objs acc'
              (fst (world ?r1), (l @ [?e]) @ snd (world ?r1))"
        using outer_forEach_goes_on[where S="recording evs S" and w="(w, l)"
            and cb="recording evc cb" and acc=acc and acc'=acc' and objs=objs, OF Sl]
        by (simp add: i1 acc')
      have rhs: "outer_forEach (recording evs S) (recording evc cb) (obj # objs) acc (w, [])
          = outer_forEach (recording evs S) (recording evc cb) objs acc'
              (fst (world ?r1), [?e] @ snd (world ?r1))"
        using outer_forEach_goes_on[where S="recording evs S" and w="(w, [])"
            and cb="recording evc cb" and acc=acc and acc'=acc' and objs=objs, OF S0]
        by (simp add: i2 acc')
      have o1: "outer_forEach (recording evs S) (recording evc cb) objs acc'
            (fst (world ?r1), (l @ [?e]) @ snd (world ?r1))
          = \<lparr>result = result ?r2,
             world = (fst (world ?r2), ((l @ [?e]) @ snd (world ?r1)) @ snd (world ?r2))\<rparr>"
        by (rule Cons.IH)
      have o2: "outer_forEach (recording evs S) (recording evc cb) objs acc'
            (fst (world ?r1), [?e] @ snd (world ?r1))
          = \<lparr>result = result ?r2,
             world = (fst (world ?r2), ([?e] @ snd (world ?r1)) @ snd (world ?r2))\<rparr>"
        by (rule Cons.IH)
      show ?thesis unfolding lhs rhs o1 o2 by simp
    qed
  qed
qed

lemma outer_forEach_recording:
  "result (outer_forEach (recording evs S) (recording evc cb) objs acc (w, l))
     = result (outer_forEach S cb objs acc w)
   \<and> fst (world (outer_forEach (recording evs S) (recording evc cb) objs acc (w, l)))
     = world (outer_forEach S cb objs acc w)"
proof (induction objs arbitrary: acc w l)
  case Nil
  show ?case by simp
next
  case (Cons obj objs)
  obtain x w1 where S: "S obj w = (x, w1)" by (cases "S obj w")
  show ?case
  proof (cases x)
    case (Inl e)
    with S show ?thesis by (simp add: recording_apply)
  next
    case (Inr ss)
    let ?e = "evs obj (Inr ss)"
    let ?i = "inner_forEach cb obj ss acc w1"
    let ?i' = "inner_forEach (recording evc cb) obj ss acc (w1, l @ [?e])"
    from S Inr have S': "recording evs S obj (w, l) = (Inr ss, (w1, l @ [?e]))"
      and S0: "S obj w = (Inr ss, w1)"
      by (simp_all add: recording_apply)
    note i = inner_forEach_recording[of evc cb obj ss acc w1 "l @ [?e]"]
    show ?thesis
    proof (cases "result ?i")
      case (Inl e)
      with i have "result ?i' = Inl e" by simp
      from outer_forEach_stops[where S="recording evs S" and w="(w, l)", OF S' this, of objs]
        outer_forEach_stops[where S=S and w=w, OF S0 Inl, of objs] i
      show ?thesis by simp
    next
      case acc': (Inr acc')
      with i have "result ?i' = Inr acc'" by simp
      note a = outer_forEach_goes_on[where S="recording evs S" and w="(w, l)", OF S' this, of objs]
        outer_forEach_goes_on[where S=S and w=w, OF S0 acc', of objs]
      from i have w: "world ?i' = (world ?i, snd (world ?i'))" by (simp add: prod_eq_iff)
      show ?thesis unfolding a
        using Cons.IH[of acc' "world ?i" "snd (world ?i')"] w by simp
    qed
  qed
qed

lemma outer_forEach_recorded_throws:
  "S obj w = (Inl e, w1) \<Longrightarrow>
     outer_forEach (recording ShapesCall S) (recording ConfigCall cb) (obj # objs) acc (w, [])
       = \<lparr>result = Inl e, world = (w1, [ShapesCall obj (Inl e)])\<rparr>"
  by (simp add: recording_apply)

lemma outer_forEach_recorded_stops:
  assumes "S obj w = (Inr ss, w1)"
    and "r1 = inner_forEach (recording ConfigCall cb) obj ss acc (w1, [])"
    and "result r1 = Inl e"
  shows "outer_forEach (recording ShapesCall S) (recording ConfigCall cb) (obj # objs) acc (w, [])
       = \<lparr>result = Inl e,
          world = (fst (world r1), ShapesCall obj (Inr ss) # snd (world r1))\<rparr>"
proof -
  let ?e = "ShapesCall obj (Inr ss)"
  from assms(1) have S0: "recording ShapesCall S obj (w, []) = (Inr ss, (w1, [?e]))"
    by (simp add: recording_apply)
  have i: "inner_forEach (recording ConfigCall cb) obj ss acc (w1, [?e])
      = \<lparr>result = result r1, world = (fst (world r1), [?e] @ snd (world r1))\<rparr>"
    unfolding assms(2) by (rule inner_forEach_recorded_before)
  have "outer_forEach (recording ShapesCall S) (recording ConfigCall cb) (obj # objs) acc (w, [])
      = inner_forEach (recording ConfigCall cb) obj ss acc (w1, [?e])"
    by (rule outer_forEach_stops[where S="recording ShapesCall S" and w="(w, [])", OF S0])
       (simp add: i assms(3))
  with i assms(3) show ?thesis by simp
qed

lemma outer_forEach_recorded_goes_on:
  assumes "S obj w = (Inr ss, w1)"
    and "r1 = inner_forEach (recording ConfigCall cb) obj ss acc (w1, [])"
    and "result r1 = Inr acc'"
    and "r2 = outer_forEach (recording ShapesCall S) (recording ConfigCall cb) objs acc'
               (fst (world r1), [])"
  shows "outer_forEach (recording ShapesCall S) (recording ConfigCall cb) (obj # objs) acc (w, [])
       = \<lparr>result = result r2,
          world = (fst (world r2), ShapesCall obj (Inr ss) # snd (world r1) @ snd (world r2))\<rparr>"
proof -
  let ?e = "ShapesCall obj (Inr ss)"
  from assms(1) have S0: "recording ShapesCall S obj (w, []) = (Inr ss, (w1, [?e]))"
    by (simp add: recording_apply)
  have i: "inner_forEach (recording ConfigCall cb) obj ss acc (w1, [?e])
      = \<lparr>result = result r1, world = (fst (world r1), [?e] @ snd (world r1))\<rparr>"
    unfolding assms(2) by (rule inner_forEach_recorded_before)
  have o: "outer_forEach (recording ShapesCall S) (recording ConfigCall cb) objs acc'
        (fst (world r1), [?e] @ snd (world r1))
      = \<lparr>result = result r2,
         world = (fst (world r2), ([?e] @ snd (world r1)) @ snd (world r2))\<rparr>"
    unfolding assms(4) by (rule outer_forEach_recorded_before)
  have "outer_forEach (recording ShapesCall S) (recording ConfigCall cb) (obj # objs) acc (w, [])
      = outer_forEach (recording ShapesCall S) (recording ConfigCall cb) objs acc'
          (fst (world r1), [?e] @ snd (world r1))"
    using outer_forEach_goes_on[where S="recording ShapesCall S" and w="(w, [])"
        and cb="recording ConfigCall cb" and acc=acc and acc'=acc' and objs=objs, OF S0]
    by (simp add: i assms(3))
  with o show ?thesis by simp
qed

text \<open>
  Whatever the outcome: the loops call neither the layer nor the completion callback, the
  objects materialized are the first objects of the list, and the configuration callback's
  invocations are the first entries of the list with one entry per materialized shape.
\<close>

lemma outer_forEach_calls:
  fixes r :: "('a shape list, 'w \<times> ('o, 'a) event list) outcome"
  assumes "r = outer_forEach (recording ShapesCall S) (recording ConfigCall cb) objs acc (w, [])"
  shows "added (snd (world r)) = [] \<and> left (snd (world r)) = [] \<and> completed (snd (world r)) = []
     \<and> (\<exists>j. materialized (snd (world r)) = take j objs)
     \<and> (\<exists>k. config_args (snd (world r)) = take k (per_shape (snd (world r))))"
  using assms
proof (induction objs arbitrary: acc w r)
  case Nil
  then show ?case by simp
next
  case (Cons obj objs)
  obtain x w1 where S: "S obj w = (x, w1)" by (cases "S obj w")
  show ?case
  proof (cases x)
    case (Inl e)
    from S Inl have S'': "S obj w = (Inl e, w1)" by simp
    have r: "r = \<lparr>result = Inl e, world = (w1, [ShapesCall obj (Inl e)])\<rparr>"
      unfolding Cons.prems
      by (rule outer_forEach_recorded_throws[where S=S and w=w, OF S''])
    have "\<exists>j. [obj] = take j (obj # objs)" by (rule exI[of _ "Suc 0"]) simp
    then show ?thesis unfolding r by simp
  next
    case (Inr ss)
    define r1 :: "('a shape list, 'w \<times> ('o, 'a) event list) outcome"
      where "r1 = inner_forEach (recording ConfigCall cb) obj ss acc (w1, [])"
    note i = inner_forEach_calls[OF r1_def]
    from i obtain k where k: "k \<le> length ss" "config_args (snd (world r1)) = replicate k obj"
      by blast
    from S Inr have S': "S obj w = (Inr ss, w1)" by simp
    show ?thesis
    proof (cases "result r1")
      case (Inl e)
      have r: "r = \<lparr>result = Inl e,
          world = (fst (world r1), ShapesCall obj (Inr ss) # snd (world r1))\<rparr>"
        unfolding Cons.prems by (rule outer_forEach_recorded_stops[where S=S and w=w, OF S' r1_def Inl])
      have "\<exists>j. [obj] = take j (obj # objs)" by (rule exI[of _ "Suc 0"]) simp
      moreover from k have "\<exists>k'. replicate k obj = take k' (replicate (length ss) obj)"
        by (intro exI[of _ k]) simp
      ultimately show ?thesis using i k unfolding r
        by (simp add: per_shape_def)
    next
      case acc': (Inr acc')
      define r2 :: "('a shape list, 'w \<times> ('o, 'a) event list) outcome"
        where "r2 = outer_forEach (recording ShapesCall S) (recording ConfigCall cb) objs acc'
               (fst (world r1), [])"
      have r: "r = \<lparr>result = result r2,
          world = (fst (world r2), ShapesCall obj (Inr ss) # snd (world r1) @ snd (world r2))\<rparr>"
        unfolding Cons.prems by (rule outer_forEach_recorded_goes_on[where S=S and w=w, OF S' r1_def acc' r2_def])
      note ih = Cons.IH[OF r2_def]
      from ih obtain j where j: "materialized (snd (world r2)) = take j objs" by blast
      from ih obtain k2 where
        k2: "config_args (snd (world r2)) = take k2 (per_shape (snd (world r2)))" by blast
      from inner_forEach_Inr[OF r1_def acc']
      have full: "config_args (snd (world r1)) = replicate (length ss) obj" by simp
      have "\<exists>j'. obj # materialized (snd (world r2)) = take j' (obj # objs)"
        using j by (intro exI[of _ "Suc j"]) simp
      moreover have "\<exists>k'. replicate (length ss) obj @ config_args (snd (world r2))
          = take k' (replicate (length ss) obj @ per_shape (snd (world r2)))"
        using k2 by (intro exI[of _ "length ss + k2"]) simp
      ultimately show ?thesis using i ih full unfolding r
        by (simp add: per_shape_def all_shapes_def)
    qed
  qed
qed

text \<open>When the loops get to their end.\<close>

lemma outer_forEach_Inr:
  fixes r :: "('a shape list, 'w \<times> ('o, 'a) event list) outcome"
  assumes "r = outer_forEach (recording ShapesCall S) (recording ConfigCall cb) objs acc (w, [])"
    and "result r = Inr out"
  shows "materialized (snd (world r)) = objs
     \<and> map fst (materializations (snd (world r))) = objs
     \<and> config_args (snd (world r)) = per_shape (snd (world r))
     \<and> length (config_returns (snd (world r))) = length (all_shapes (snd (world r)))
     \<and> out = acc @ map2 configured (config_returns (snd (world r))) (all_shapes (snd (world r)))
     \<and> list_all readable (config_returns (snd (world r)))"
  using assms
proof (induction objs arbitrary: acc w r)
  case Nil
  then show ?case by simp
next
  case (Cons obj objs)
  obtain x w1 where S: "S obj w = (x, w1)" by (cases "S obj w")
  show ?case
  proof (cases x)
    case (Inl e)
    from S Inl have S'': "S obj w = (Inl e, w1)" by simp
    have "r = \<lparr>result = Inl e, world = (w1, [ShapesCall obj (Inl e)])\<rparr>"
      unfolding Cons.prems(1)
      by (rule outer_forEach_recorded_throws[where S=S and w=w, OF S''])
    with Cons.prems(2) show ?thesis by simp
  next
    case (Inr ss)
    define r1 :: "('a shape list, 'w \<times> ('o, 'a) event list) outcome"
      where "r1 = inner_forEach (recording ConfigCall cb) obj ss acc (w1, [])"
    note i = inner_forEach_calls[OF r1_def]
    from S Inr have S': "S obj w = (Inr ss, w1)" by simp
    show ?thesis
    proof (cases "result r1")
      case (Inl e)
      have "r = \<lparr>result = Inl e,
          world = (fst (world r1), ShapesCall obj (Inr ss) # snd (world r1))\<rparr>"
        unfolding Cons.prems(1) by (rule outer_forEach_recorded_stops[where S=S and w=w, OF S' r1_def Inl])
      with Cons.prems(2) show ?thesis by simp
    next
      case acc': (Inr acc')
      define r2 :: "('a shape list, 'w \<times> ('o, 'a) event list) outcome"
        where "r2 = outer_forEach (recording ShapesCall S) (recording ConfigCall cb) objs acc'
               (fst (world r1), [])"
      have r: "r = \<lparr>result = result r2,
          world = (fst (world r2), ShapesCall obj (Inr ss) # snd (world r1) @ snd (world r2))\<rparr>"
        unfolding Cons.prems(1) by (rule outer_forEach_recorded_goes_on[where S=S and w=w, OF S' r1_def acc' r2_def])
      from Cons.prems(2) have "result r2 = Inr out" unfolding r by simp
      note ih = Cons.IH[OF r2_def this]
      note ii = inner_forEach_Inr[OF r1_def acc']
      from i ii ih show ?thesis unfolding r
        by (simp add: per_shape_def all_shapes_def)
    qed
  qed
qed

subsection \<open>The calls of load\<close>

lemma calls_result_world [simp]: "calls \<lparr>result = x, world = (w, l)\<rparr> = l"
  by (simp add: calls_def)

lemma observed_parse_error:
  "T (textRepresentation this) = Inl e \<Longrightarrow>
     observed T S this pcc scc layer w = \<lparr>result = Inl e, world = (w, [])\<rparr>"
  by (simp add: observed_def load_def)

text \<open>
  The three ways a run goes on after the parse: the loops stop on an error, the layer
  throws, or the layer returns and the completion callback is invoked.
\<close>

lemma observed_cases:
  fixes r1 :: "('a shape list, 'w \<times> ('o, 'a) event list) outcome"
  assumes "T (textRepresentation this) = Inr roots"
    and "r1 = outer_forEach (recording ShapesCall S) (recording ConfigCall scc) roots [] (w, [])"
  shows "(\<exists>e. result r1 = Inl e \<and> result (observed T S this pcc scc layer w) = Inl e
            \<and> calls (observed T S this pcc scc layer w) = snd (world r1))
     \<or> (\<exists>ss e. result r1 = Inr ss \<and> result (observed T S this pcc scc layer w) = Inl e
            \<and> calls (observed T S this pcc scc layer w)
                = snd (world r1) @ [AddRenderables ss (Inl e)])
     \<or> (\<exists>ss ss' x. result r1 = Inr ss
            \<and> calls (observed T S this pcc scc layer w)
                = snd (world r1) @ [AddRenderables ss (Inr ss'), CompletionCall ss' x]
            \<and> result (observed T S this pcc scc layer w)
                = (case x of Inl e \<Rightarrow> Inl e | Inr u \<Rightarrow> Inr roots)
            \<and> fst (layer ss (fst (world r1))) = Inr ss')"
proof (cases "result r1")
  case (Inl e)
  with assms have "result (observed T S this pcc scc layer w) = Inl e
      \<and> calls (observed T S this pcc scc layer w) = snd (world r1)"
    by (simp add: observed_def load_def or_noop_def Let_def calls_def)
  with Inl show ?thesis by blast
next
  case (Inr ss)
  obtain w1 l1 where w1: "world r1 = (w1, l1)" by (cases "world r1")
  obtain y w2 where layer: "layer ss w1 = (y, w2)" by (cases "layer ss w1")
  show ?thesis
  proof (cases y)
    case (Inl e)
    with assms Inr w1 layer have "result (observed T S this pcc scc layer w) = Inl e
        \<and> calls (observed T S this pcc scc layer w) = snd (world r1) @ [AddRenderables ss (Inl e)]"
      by (simp add: observed_def load_def or_noop_def Let_def recording_apply)
    with Inr show ?thesis by blast
  next
    case ss': (Inr ss')
    obtain x w3 where pcc: "pcc ss' w2 = (x, w3)" by (cases "pcc ss' w2")
    from assms Inr w1 layer ss' pcc
    have "calls (observed T S this pcc scc layer w)
          = snd (world r1) @ [AddRenderables ss (Inr ss'), CompletionCall ss' x]
        \<and> result (observed T S this pcc scc layer w)
          = (case x of Inl e \<Rightarrow> Inl e | Inr u \<Rightarrow> Inr roots)"
      by (cases x) (simp_all add: observed_def load_def or_noop_def Let_def recording_apply)
    moreover from w1 layer ss' have "fst (layer ss (fst (world r1))) = Inr ss'" by simp
    ultimately show ?thesis using Inr by blast
  qed
qed

text \<open>The recording caller sees the run that the caller itself gets.\<close>

lemma observed_load:
  "result (observed T S this pcc scc layer w) = result (load T S this (Some pcc) (Some scc) layer w)
   \<and> fst (world (observed T S this pcc scc layer w))
       = world (load T S this (Some pcc) (Some scc) layer w)"
proof (cases "T (textRepresentation this)")
  case (Inl e)
  then show ?thesis by (simp add: observed_def load_def)
next
  case (Inr roots)
  let ?r1' = "outer_forEach (recording ShapesCall S) (recording ConfigCall scc) roots [] (w, [])"
  let ?r1 = "outer_forEach S scc roots [] w"
  note o = outer_forEach_recording[of ShapesCall S ConfigCall scc roots "[]" w "[]"]
  show ?thesis
  proof (cases "result ?r1")
    case (Inl e)
    with Inr o show ?thesis by (simp add: observed_def load_def or_noop_def Let_def)
  next
    case ss: (Inr ss)
    obtain l1 where w1: "world ?r1' = (world ?r1, l1)" using o by (cases "world ?r1'") simp
    obtain y w2 where layer: "layer ss (world ?r1) = (y, w2)" by (cases "layer ss (world ?r1)")
    show ?thesis
    proof (cases y)
      case (Inl e)
      with Inr o ss w1 layer show ?thesis
        by (simp add: observed_def load_def or_noop_def Let_def recording_apply)
    next
      case ss': (Inr ss')
      obtain x w3 where pcc: "pcc ss' w2 = (x, w3)" by (cases "pcc ss' w2")
      with Inr o ss w1 layer ss' show ?thesis
        by (cases x) (simp_all add: observed_def load_def or_noop_def Let_def recording_apply)
    qed
  qed
qed

subsection \<open>Callers that never throw\<close>

lemma inner_forEach_never_throws:
  "never_throws cb \<Longrightarrow> returns_readable cb \<Longrightarrow>
     \<exists>out. result (inner_forEach cb obj ss acc w) = Inr out"
proof (induction ss arbitrary: acc w)
  case Nil
  then show ?case by simp
next
  case (Cons s ss)
  obtain r w' where cb: "cb obj w = (r, w')" by (cases "cb obj w")
  from Cons.prems(1) cb obtain c where r: "r = Inr c"
    unfolding never_throws_def by (metis fst_conv)
  with Cons.prems(2) cb have "readable c"
    unfolding returns_readable_def by (metis fst_conv)
  then have "configure c s = Inr (configured c s)" by (rule readable_configure)
  with Cons.IH[OF Cons.prems, of "acc @ [configured c s]" w'] cb r show ?case
    by simp
qed

lemma outer_forEach_never_throws:
  "never_throws S \<Longrightarrow> never_throws cb \<Longrightarrow> returns_readable cb \<Longrightarrow>
     \<exists>out. result (outer_forEach S cb objs acc w) = Inr out"
proof (induction objs arbitrary: acc w)
  case Nil
  then show ?case by simp
next
  case (Cons obj objs)
  obtain x w1 where S: "S obj w = (x, w1)" by (cases "S obj w")
  from Cons.prems(1) S obtain ss where x: "x = Inr ss"
    unfolding never_throws_def by (metis fst_conv)
  from inner_forEach_never_throws[OF Cons.prems(2,3), of obj ss acc w1]
  obtain acc' where i: "result (inner_forEach cb obj ss acc w1) = Inr acc'" by blast
  from S x have S': "S obj w = (Inr ss, w1)" by simp
  from Cons.IH[OF Cons.prems, of acc' "world (inner_forEach cb obj ss acc w1)"]
  show ?case unfolding outer_forEach_goes_on[where S=S and w=w, OF S' i] .
qed

lemma load_never_throws:
  assumes "T (textRepresentation this) = Inr roots"
    and "never_throws S"
    and "never_throws (or_noop scc)" and "returns_readable (or_noop scc)"
    and "never_throws (or_noop pcc)" and "never_throws layer"
  shows "result (load T S this pcc scc layer w) = Inr roots"
proof -
  from outer_forEach_never_throws[OF assms(2,3,4), of roots "[]" w]
  obtain ss where r1: "result (outer_forEach S (or_noop scc) roots [] w) = Inr ss" by blast
  let ?w1 = "world (outer_forEach S (or_noop scc) roots [] w)"
  obtain r2 w2 where l: "layer ss ?w1 = (r2, w2)" by (cases "layer ss ?w1")
  from assms(6) l obtain ss' where r2: "r2 = Inr ss'"
    unfolding never_throws_def by (metis fst_conv)
  obtain r3 w3 where p: "or_noop pcc ss' w2 = (r3, w3)" by (cases "or_noop pcc ss' w2")
  from assms(5) p obtain u' where r3: "r3 = Inr u'" unfolding never_throws_def by (metis fst_conv)
  from assms(1) r1 l r2 p r3 show ?thesis
    by (simp add: load_def Let_def)
qed

lemma map_other_map2_configured:
  "length cs = length ss \<Longrightarrow> list_all readable cs \<Longrightarrow>
     map other (map2 configured cs ss) = map other ss"
proof (induction cs ss rule: list_induct2)
  case Nil
  show ?case by simp
next
  case (Cons c cs s ss)
  from Cons.prems have "configure c s = Inr (configured c s)" by (simp add: readable_configure)
  then have "other (configured c s) = other s" by (rule other_configure)
  with Cons show ?case by simp
qed

text \<open>What every run shows after a parse that succeeds, and what a run shows that returns.\<close>

lemma observed_summary:
  fixes tr :: "('o, 'a) event list" and w :: 'w
  assumes T: "T (textRepresentation this) = Inr roots"
    and tr: "tr = calls (observed T S this pcc scc layer w)"
  shows "(\<exists>j. materialized tr = take j roots)
     \<and> (\<exists>k. config_args tr = take k (per_shape tr))
     \<and> completed tr = left tr
     \<and> (keeps_array layer \<longrightarrow> left tr = [] \<or> left tr = added tr)
     \<and> (added tr = []
          \<or> added tr = [map2 configured (config_returns tr) (all_shapes tr)]
            \<and> materialized tr = roots
            \<and> map fst (materializations tr) = roots
            \<and> config_args tr = per_shape tr
            \<and> length (config_returns tr) = length (all_shapes tr)
            \<and> list_all readable (config_returns tr))
     \<and> (\<forall>r. result (observed T S this pcc scc layer w) = Inr r \<longrightarrow>
          r = roots
          \<and> (\<exists>pre ss' u.
                tr = pre @ [AddRenderables (map2 configured (config_returns tr) (all_shapes tr)) (Inr ss'),
                            CompletionCall ss' (Inr u)]
                \<and> added pre = [] \<and> left pre = [] \<and> completed pre = []
                \<and> materialized pre = roots
                \<and> config_args pre = config_args tr
                \<and> config_returns pre = config_returns tr
                \<and> all_shapes pre = all_shapes tr))"
proof -
  define r1 :: "('a shape list, 'w \<times> ('o, 'a) event list) outcome"
    where "r1 = outer_forEach (recording ShapesCall S) (recording ConfigCall scc) roots [] (w, [])"
  note c = outer_forEach_calls[OF r1_def]
  from c obtain j where j: "materialized (snd (world r1)) = take j roots" by blast
  from c obtain k where k: "config_args (snd (world r1)) = take k (per_shape (snd (world r1)))"
    by blast
  from c have none: "added (snd (world r1)) = []" "left (snd (world r1)) = []"
    "completed (snd (world r1)) = []" by simp_all
  from observed_cases[where T=T and this=this and pcc=pcc and layer=layer, OF T r1_def]
  consider
    (stopped) e where "result r1 = Inl e" "result (observed T S this pcc scc layer w) = Inl e"
      "tr = snd (world r1)"
  | (layer_threw) ss e where "result r1 = Inr ss" "result (observed T S this pcc scc layer w) = Inl e"
      "tr = snd (world r1) @ [AddRenderables ss (Inl e)]"
  | (handed) ss ss' x where "result r1 = Inr ss"
      "tr = snd (world r1) @ [AddRenderables ss (Inr ss'), CompletionCall ss' x]"
      "result (observed T S this pcc scc layer w) = (case x of Inl e \<Rightarrow> Inl e | Inr u \<Rightarrow> Inr roots)"
      "fst (layer ss (fst (world r1))) = Inr ss'"
    unfolding tr by blast
  then show ?thesis
  proof cases
    case stopped
    from j k none show ?thesis unfolding stopped(3) by (simp add: stopped(2)) blast
  next
    case layer_threw
    note o = outer_forEach_Inr[OF r1_def layer_threw(1)]
    from o have ss: "ss = map2 configured (config_returns (snd (world r1))) (all_shapes (snd (world r1)))"
      by simp
    have 1: "\<exists>j. materialized (snd (world r1)) = take j roots" using j by blast
    have 2: "\<exists>k. config_args (snd (world r1)) = take k (per_shape (snd (world r1)))"
      using k by blast
    from 1 2 o none ss show ?thesis unfolding layer_threw(3)
      by (simp add: layer_threw(2))
  next
    case handed
    note o = outer_forEach_Inr[OF r1_def handed(1)]
    from o have ss: "ss = map2 configured (config_returns (snd (world r1))) (all_shapes (snd (world r1)))"
      by simp
    have 1: "\<exists>j. materialized (snd (world r1)) = take j roots" using j by blast
    have 2: "\<exists>k. config_args (snd (world r1)) = take k (per_shape (snd (world r1)))"
      using k by blast
    have keeps: "keeps_array layer \<longrightarrow> ss' = ss"
      using handed(4) unfolding keeps_array_def by blast
    have last: "\<forall>r. result (observed T S this pcc scc layer w) = Inr r \<longrightarrow>
        r = roots \<and> (\<exists>u. x = Inr u)"
      unfolding handed(3) by (cases x) simp_all
    have pre: "\<forall>u. x = Inr u \<longrightarrow> (\<exists>pre ss'' u'.
        snd (world r1) @ [AddRenderables ss (Inr ss'), CompletionCall ss' x]
          = pre @ [AddRenderables ss (Inr ss''), CompletionCall ss'' (Inr u')]
        \<and> added pre = [] \<and> left pre = [] \<and> completed pre = []
        \<and> materialized pre = roots
        \<and> config_args pre = config_args (snd (world r1))
        \<and> config_returns pre = config_returns (snd (world r1))
        \<and> all_shapes pre = all_shapes (snd (world r1)))"
      using none o by blast
    from 1 2 o none keeps last pre show ?thesis unfolding handed(2)
      by (simp add: ss[symmetric])
  qed
qed

lemma observed_reaches_layer:
  fixes w :: 'w and roots :: "'o list" and ss :: "'a shape list"
  assumes "T (textRepresentation this) = Inr roots"
    and "result (outer_forEach S scc roots [] w) = Inr ss"
  shows "added (calls (observed T S this pcc scc layer w)) \<noteq> []"
proof -
  define r1 :: "('a shape list, 'w \<times> ('o, 'a) event list) outcome"
    where "r1 = outer_forEach (recording ShapesCall S) (recording ConfigCall scc) roots [] (w, [])"
  from outer_forEach_recording[of ShapesCall S ConfigCall scc roots "[]" w "[]"] assms(2)
  have "result r1 = Inr ss" unfolding r1_def by simp
  with observed_cases[where T=T and this=this and pcc=pcc and layer=layer, OF assms(1) r1_def]
  show ?thesis by auto
qed

lemma observed_Inr_parse:
  "result (observed T S this pcc scc layer w) = Inr roots \<Longrightarrow>
     T (textRepresentation this) = Inr roots"
proof (cases "T (textRepresentation this)")
  case (Inl e)
  assume "result (observed T S this pcc scc layer w) = Inr roots"
  with Inl show ?thesis by (simp add: observed_parse_error)
next
  case (Inr roots')
  assume r: "result (observed T S this pcc scc layer w) = Inr roots"
  from observed_summary[where T=T and this=this, OF Inr refl, of S pcc scc layer w] r
  have "roots = roots'" by blast
  with Inr show ?thesis by simp
qed

lemma observed_added_parse:
  "added (calls (observed T S this pcc scc layer w)) \<noteq> [] \<Longrightarrow>
     \<exists>roots. T (textRepresentation this) = Inr roots"
  by (cases "T (textRepresentation this)") (simp_all add: observed_parse_error)

lemma observed_added:
  assumes "added (calls (observed T S this pcc scc layer w)) = [out]"
  shows "out = map2 configured (config_returns (calls (observed T S this pcc scc layer w)))
                 (all_shapes (calls (observed T S this pcc scc layer w)))"
    and "length (config_returns (calls (observed T S this pcc scc layer w)))
           = length (all_shapes (calls (observed T S this pcc scc layer w)))"
    and "list_all readable (config_returns (calls (observed T S this pcc scc layer w)))"
    and "\<exists>roots. T (textRepresentation this) = Inr roots
           \<and> map fst (materializations (calls (observed T S this pcc scc layer w))) = roots
           \<and> materialized (calls (observed T S this pcc scc layer w)) = roots"
proof -
  let ?tr = "calls (observed T S this pcc scc layer w)"
  from assms have ne: "added ?tr \<noteq> []" by simp
  from observed_added_parse[OF ne]
  obtain roots where p: "T (textRepresentation this) = Inr roots" ..
  from observed_summary[where T=T and this=this, OF p refl, of S pcc scc layer w]
  have "added ?tr = []
          \<or> added ?tr = [map2 configured (config_returns ?tr) (all_shapes ?tr)]
            \<and> materialized ?tr = roots
            \<and> map fst (materializations ?tr) = roots
            \<and> config_args ?tr = per_shape ?tr
            \<and> length (config_returns ?tr) = length (all_shapes ?tr)
            \<and> list_all readable (config_returns ?tr)"
    by blast
  with ne have s: "added ?tr = [map2 configured (config_returns ?tr) (all_shapes ?tr)]"
      "materialized ?tr = roots" "map fst (materializations ?tr) = roots"
      "length (config_returns ?tr) = length (all_shapes ?tr)"
      "list_all readable (config_returns ?tr)"
    by blast+
  from s(1) assms show "out = map2 configured (config_returns ?tr) (all_shapes ?tr)" by simp
  from s(4) show "length (config_returns ?tr) = length (all_shapes ?tr)" .
  from s(5) show "list_all readable (config_returns ?tr)" .
  from p s(2,3) show "\<exists>roots. T (textRepresentation this) = Inr roots
           \<and> map fst (materializations ?tr) = roots \<and> materialized ?tr = roots"
    by blast
qed

lemma observed_shape:
  assumes "added (calls (observed T S this pcc scc layer w)) = [out]" and "i < length out"
  shows "configure (config_returns (calls (observed T S this pcc scc layer w)) ! i)
           (all_shapes (calls (observed T S this pcc scc layer w)) ! i) = Inr (out ! i)"
    and "length out = length (all_shapes (calls (observed T S this pcc scc layer w)))"
proof -
  let ?cs = "config_returns (calls (observed T S this pcc scc layer w))"
  let ?orig = "all_shapes (calls (observed T S this pcc scc layer w))"
  note a = observed_added[OF assms(1)]
  from a(1,2) show len: "length out = length ?orig" by simp
  with assms(2) a(2) have i: "i < length ?cs" "i < length ?orig" by simp_all
  with a(1) have "out ! i = configured (?cs ! i) (?orig ! i)" by simp
  moreover from a(3) i have "readable (?cs ! i)" by (simp add: list_all_length)
  ultimately show "configure (?cs ! i) (?orig ! i) = Inr (out ! i)"
    by (simp add: readable_configure)
qed

lemma noop_never_throws: "never_throws noop"
  by (simp add: never_throws_def noop_def)

lemma noop_returns_readable: "returns_readable noop"
  by (simp add: returns_readable_def noop_def readable_def guarded_read_def and_prop_def
      bind_err_def)

lemma inner_forEach_noop:
  "inner_forEach noop object ss shapes w = \<lparr>result = Inr (shapes @ ss), world = w\<rparr>"
  by (induction ss arbitrary: shapes) (simp_all add: noop_def configure_undefined)

lemma outer_forEach_returning_noop:
  "outer_forEach (returning f) noop roots shapes w
     = \<lparr>result = Inr (shapes @ concat (map f roots)), world = w\<rparr>"
  by (induction roots arbitrary: shapes) (simp_all add: returning_def inner_forEach_noop Let_def)

lemma load_returning_noop:
  "load T (returning f) this None None layer w
     = (case T (textRepresentation this) of
          Inl e \<Rightarrow> \<lparr>result = Inl e, world = w\<rparr>
        | Inr roots \<Rightarrow>
            (case layer (concat (map f roots)) w of
               (Inl e, w2) \<Rightarrow> \<lparr>result = Inl e, world = w2\<rparr>
             | (Inr ss', w2) \<Rightarrow> \<lparr>result = Inr roots, world = w2\<rparr>))"
  by (simp add: load_def or_noop_def Let_def outer_forEach_returning_noop noop_def
      split: sum.splits prod.splits)

section \<open>The claims\<close>

text \<open>
  C1, as stated: the configuration callback is invoked exactly once per parsed geometry
  root, also for a root with several shapes and for an empty root. The code calls it inside
  the loop over the root's shapes: a callback that records its invocations is invoked
  twice for the sample collection of a point and a line, which is one root, and not at all
  for the empty point.
\<close>

theorem load_configuration_once_per_root_counterexample:
  "result (observed sample_objects (returning materialize)
             (WktParser ''GEOMETRYCOLLECTION (POINT (1 2), LINESTRING (0 0, 1 1))'')
             noop example_configuration example_layer [])
     = Inr [sample_collection]
   \<and> config_args (calls (observed sample_objects (returning materialize)
             (WktParser ''GEOMETRYCOLLECTION (POINT (1 2), LINESTRING (0 0, 1 1))'')
             noop example_configuration example_layer []))
     = [sample_collection, sample_collection]
   \<and> result (observed sample_objects (returning materialize) (WktParser ''POINT EMPTY'')
             noop example_configuration example_layer [])
     = Inr [Point XY None]
   \<and> config_args (calls (observed sample_objects (returning materialize)
             (WktParser ''POINT EMPTY'') noop example_configuration example_layer []))
     = []"
  by code_simp

text \<open>
  C1, amended: load invokes the configuration callback once per materialized shape, not
  once per root, in the order of the shapes and each time with the root the shape came
  from: a root whose \<^verbatim>\<open>shapes()\<close> returns \<open>n\<close> shapes is passed \<open>n\<close> times, an
  empty root never. The invocations a recording callback has received are always the
  first entries of that sequence; they are the whole of it once load has reached the
  hand-over to the layer, and so whenever neither \<^verbatim>\<open>shapes()\<close>, nor the callback,
  nor a read of a record it returned throws (also when the layer then throws).
\<close>

theorem load_configuration_calls:
  "(\<exists>k. config_args (calls (observed T S this pcc scc layer w))
           = take k (per_shape (calls (observed T S this pcc scc layer w))))
   \<and> (added (calls (observed T S this pcc scc layer w)) \<noteq> []
        \<longrightarrow> config_args (calls (observed T S this pcc scc layer w))
              = per_shape (calls (observed T S this pcc scc layer w)))
   \<and> (\<forall>roots. T (textRepresentation this) = Inr roots
          \<and> never_throws S \<and> never_throws scc \<and> returns_readable scc
        \<longrightarrow> config_args (calls (observed T S this pcc scc layer w))
              = per_shape (calls (observed T S this pcc scc layer w))
            \<and> map fst (materializations (calls (observed T S this pcc scc layer w))) = roots)"
proof (cases "T (textRepresentation this)")
  case (Inl e)
  then show ?thesis by (simp add: observed_parse_error)
next
  case (Inr roots)
  note s = observed_summary[where T=T and this=this, OF Inr refl, of S pcc scc layer w]
  have "never_throws S \<and> never_throws scc \<and> returns_readable scc
      \<longrightarrow> added (calls (observed T S this pcc scc layer w)) \<noteq> []"
  proof
    assume "never_throws S \<and> never_throws scc \<and> returns_readable scc"
    then obtain ss where "result (outer_forEach S scc roots [] w) = Inr ss"
      using outer_forEach_never_throws[of S scc roots "[]" w] by blast
    then show "added (calls (observed T S this pcc scc layer w)) \<noteq> []"
      by (rule observed_reaches_layer[where T=T and this=this, OF Inr])
  qed
  with s Inr show ?thesis by auto
qed

theorem load_configuration_calls_witness:
  "sample_objects (textRepresentation (WktParser two_statements :: int geometry WktParser_obj))
     = Inr [Point XY (Some [19, 23]), sample_collection]
   \<and> never_throws (returning materialize :: (int geometry, int primitive shape list, int primitive shape list) extfun)
   \<and> never_throws (example_configuration :: (int geometry, jsval, int primitive shape list) extfun)
   \<and> returns_readable (example_configuration :: (int geometry, jsval, int primitive shape list) extfun)
   \<and> added (calls (observed sample_objects (returning materialize) (WktParser two_statements)
         noop example_configuration example_layer [])) \<noteq> []
   \<and> config_args (calls (observed sample_objects (returning materialize) (WktParser two_statements)
         noop example_configuration example_layer []))
     = [Point XY (Some [19, 23]), sample_collection, sample_collection]
   \<and> map fst (materializations (calls (observed sample_objects (returning materialize)
         (WktParser two_statements) noop example_configuration example_layer [])))
     = [Point XY (Some [19, 23]), sample_collection]"
proof -
  let ?L = "observed sample_objects (returning materialize) (WktParser two_statements)
         noop example_configuration example_layer []"
  have p: "sample_objects (textRepresentation (WktParser two_statements :: int geometry WktParser_obj))
     = Inr [Point XY (Some [19, 23]), sample_collection]"
    by code_simp
  have n: "never_throws (returning materialize :: (int geometry, int primitive shape list, int primitive shape list) extfun)"
    "never_throws (example_configuration :: (int geometry, jsval, int primitive shape list) extfun)"
    by (simp_all add: never_throws_def returning_def example_configuration_def)
  have r: "returns_readable (example_configuration :: (int geometry, jsval, int primitive shape list) extfun)"
    by (auto simp: returns_readable_def returning_def example_configuration_def example_record_def
        readable_def recognized_def guarded_read_def and_prop_def bind_err_def
        split: geometry.splits)
  have a: "added (calls ?L) \<noteq> []"
    by code_simp
  have e: "per_shape (calls ?L) = [Point XY (Some [19, 23]), sample_collection, sample_collection]"
    by code_simp
  note t = load_configuration_calls[of sample_objects "returning materialize"
      "WktParser two_statements" noop example_configuration example_layer "[]"]
  from t a have 1: "config_args (calls ?L) = per_shape (calls ?L)" by blast
  from t p n r have 2: "map fst (materializations (calls ?L))
      = [Point XY (Some [19, 23]), sample_collection]" by blast
  from p n r a 1 2 show ?thesis unfolding e by (intro conjI)
qed

text \<open>
  C2, as stated: the completion callback receives the full ordered list of all shapes
  produced in the call. It receives the array that the layer was handed just before, as
  the layer left it: with a layer that takes the renderables out of the array, three
  shapes are materialized and handed to the layer, and the completion callback receives
  an empty array.
\<close>

theorem load_completion_full_list_counterexample:
  "result (observed sample_objects (returning materialize) (WktParser two_statements)
      noop example_configuration clearing_layer [])
    = Inr [Point XY (Some [19, 23]), sample_collection]
   \<and> added (calls (observed sample_objects (returning materialize) (WktParser two_statements)
      noop example_configuration clearing_layer []))
    = [[(new_shape (Marker [19, 23]))\<lparr>attributes := red_attributes\<rparr>,
        new_shape (Marker [1, 2]), new_shape (Polyline [[0, 0], [1, 1]])]]
   \<and> completed (calls (observed sample_objects (returning materialize) (WktParser two_statements)
      noop example_configuration clearing_layer []))
    = [[]]"
  by code_simp

text \<open>
  C2, amended: when load completes, the completion callback has been invoked exactly
  once; its invocation is the last call of the run, right after the one of
  \<^verbatim>\<open>layer.addRenderables\<close>, and after every \<^verbatim>\<open>shapes()\<close> and configuration call;
  the layer is handed every materialized shape, in order, as configured, and the
  completion callback receives that array as the layer left it: the full list when the
  layer leaves the array as it was.
\<close>

theorem load_completion_callback:
  assumes "result (observed T S this pcc scc layer w) = Inr roots"
  shows "let tr = calls (observed T S this pcc scc layer w);
             ss = map2 configured (config_returns tr) (all_shapes tr)
         in length (completed tr) = 1
            \<and> completed tr = left tr
            \<and> length ss = length (all_shapes tr)
            \<and> (\<exists>pre ss' u. tr = pre @ [AddRenderables ss (Inr ss'), CompletionCall ss' (Inr u)]
                  \<and> completed pre = [] \<and> materialized pre = roots
                  \<and> config_args pre = config_args tr
                  \<and> all_shapes pre = all_shapes tr)
            \<and> (keeps_array layer \<longrightarrow> completed tr = [ss])"
proof -
  let ?tr = "calls (observed T S this pcc scc layer w)"
  let ?ss = "map2 configured (config_returns ?tr) (all_shapes ?tr)"
  note p = observed_Inr_parse[OF assms]
  note s = observed_summary[where T=T and this=this, OF p refl, of S pcc scc layer w]
  from s assms obtain pre ss' u where
    tr: "?tr = pre @ [AddRenderables ?ss (Inr ss'), CompletionCall ss' (Inr u)]"
    and pre: "added pre = []" "left pre = []" "completed pre = []" "materialized pre = roots"
      "config_args pre = config_args ?tr" "config_returns pre = config_returns ?tr"
      "all_shapes pre = all_shapes ?tr"
    by blast
  have a: "added ?tr = [?ss]" by (subst tr) (simp add: pre)
  have c: "completed ?tr = [ss']" by (subst tr) (simp add: pre)
  have l: "left ?tr = [ss']" by (subst tr) (simp add: pre)
  from s a have len: "length (config_returns ?tr) = length (all_shapes ?tr)" by auto
  from s a l have k: "keeps_array layer \<longrightarrow> ss' = ?ss" by auto
  have ex: "\<exists>pre ss' u. ?tr = pre @ [AddRenderables ?ss (Inr ss'), CompletionCall ss' (Inr u)]
      \<and> completed pre = [] \<and> materialized pre = roots
      \<and> config_args pre = config_args ?tr \<and> all_shapes pre = all_shapes ?tr"
    using tr pre by blast
  from c l len k ex show ?thesis unfolding Let_def by simp
qed

theorem load_completion_callback_witness:
  "result (observed sample_objects (returning materialize) (WktParser two_statements)
      noop example_configuration example_layer [])
    = Inr [Point XY (Some [19, 23]), sample_collection]
   \<and> keeps_array (example_layer :: (int primitive shape list, int primitive shape list, int primitive shape list) extfun)
   \<and> completed (calls (observed sample_objects (returning materialize) (WktParser two_statements)
      noop example_configuration example_layer []))
    = [[(new_shape (Marker [19, 23]))\<lparr>attributes := red_attributes\<rparr>,
        new_shape (Marker [1, 2]), new_shape (Polyline [[0, 0], [1, 1]])]]
   \<and> length (completed (calls (observed sample_objects (returning materialize)
      (WktParser two_statements) noop example_configuration example_layer []))) = 1
   \<and> completion_call (last (calls (observed sample_objects (returning materialize)
      (WktParser two_statements) noop example_configuration example_layer [])))
    = [[(new_shape (Marker [19, 23]))\<lparr>attributes := red_attributes\<rparr>,
        new_shape (Marker [1, 2]), new_shape (Polyline [[0, 0], [1, 1]])]]"
proof -
  let ?L = "observed sample_objects (returning materialize) (WktParser two_statements)
      noop example_configuration example_layer []"
  let ?out = "[(new_shape (Marker [19, 23]))\<lparr>attributes := red_attributes\<rparr>,
        new_shape (Marker [1, 2::int]), new_shape (Polyline [[0, 0], [1, 1]])]"
  have h: "result ?L = Inr [Point XY (Some [19, 23]), sample_collection]"
    by code_simp
  have k: "keeps_array (example_layer :: (int primitive shape list, int primitive shape list, int primitive shape list) extfun)"
    by (simp add: keeps_array_def example_layer_def)
  have e: "map2 configured (config_returns (calls ?L)) (all_shapes (calls ?L)) = ?out"
    by code_simp
  note t = load_completion_callback[OF h, unfolded Let_def e]
  from t k have c: "completed (calls ?L) = [?out]" by blast
  from t have n: "length (completed (calls ?L)) = 1" by blast
  from t obtain pre ss' u where tr: "calls ?L = pre @ [AddRenderables ?out (Inr ss'), CompletionCall ss' (Inr u)]"
    and "completed pre = []"
    by blast
  with c have "ss' = ?out" by simp
  moreover from tr have "last (calls ?L) = CompletionCall ss' (Inr u)" by simp
  ultimately have l: "completion_call (last (calls ?L)) = [?out]" by simp
  from h k c n l show ?thesis by (intro conjI)
qed

text \<open>
  C3: the shape at each position of the array given to the layer is the materialized
  shape at that position with at most the four recognized fields changed: what is outside
  the four fields is as it was, a recognized field that the returned configuration does
  not have is as it was, and a field that changed is one the configuration has, and holds
  what the assignment read from it.
\<close>

theorem load_frame:
  assumes "added (calls (observed T S this pcc scc layer w)) = [out]"
    and "i < length out"
  shows "let c = config_returns (calls (observed T S this pcc scc layer w)) ! i;
             s = all_shapes (calls (observed T S this pcc scc layer w)) ! i;
             s' = out ! i
         in length out = length (all_shapes (calls (observed T S this pcc scc layer w)))
            \<and> other s' = other s
            \<and> (\<forall>n \<in> set recognized.
                  (\<not> has_prop c n \<longrightarrow> shape_field n s' = shape_field n s)
                  \<and> (shape_field n s' \<noteq> shape_field n s
                       \<longrightarrow> has_prop c n \<and> get_prop c n 1 = Inr (shape_field n s')))"
proof -
  let ?c = "config_returns (calls (observed T S this pcc scc layer w)) ! i"
  let ?s = "all_shapes (calls (observed T S this pcc scc layer w)) ! i"
  note c = observed_shape[OF assms]
  have "(\<not> has_prop ?c n \<longrightarrow> shape_field n (out ! i) = shape_field n ?s)
      \<and> (shape_field n (out ! i) \<noteq> shape_field n ?s
           \<longrightarrow> has_prop ?c n \<and> get_prop ?c n 1 = Inr (shape_field n (out ! i)))"
    if n: "n \<in> set recognized" for n
  proof -
    note f = shape_field_configure[OF c(1) n]
    have "\<not> has_prop ?c n \<longrightarrow> shape_field n (out ! i) = shape_field n ?s"
      unfolding f by (simp add: pick_absent)
    moreover have "shape_field n (out ! i) \<noteq> shape_field n ?s
           \<longrightarrow> has_prop ?c n \<and> get_prop ?c n 1 = Inr (shape_field n (out ! i))"
      unfolding f using pick_changed[of ?c n "shape_field n ?s"] by blast
    ultimately show ?thesis ..
  qed
  then have "\<forall>n \<in> set recognized.
      (\<not> has_prop ?c n \<longrightarrow> shape_field n (out ! i) = shape_field n ?s)
      \<and> (shape_field n (out ! i) \<noteq> shape_field n ?s
           \<longrightarrow> has_prop ?c n \<and> get_prop ?c n 1 = Inr (shape_field n (out ! i)))" ..
  with c(2) other_configure[OF c(1)] show ?thesis unfolding Let_def by (intro conjI)
qed

theorem load_frame_witness:
  "added (calls (observed sample_objects (returning materialize) (WktParser two_statements)
      noop example_configuration example_layer []))
    = [[(new_shape (Marker [19, 23]))\<lparr>attributes := red_attributes\<rparr>,
        new_shape (Marker [1, 2]), new_shape (Polyline [[0, 0], [1, 1]])]]
   \<and> (0::nat) < length [(new_shape (Marker [19, 23]))\<lparr>attributes := red_attributes\<rparr>,
        new_shape (Marker [1, 2::int]), new_shape (Polyline [[0, 0], [1, 1]])]
   \<and> other ([(new_shape (Marker [19, 23]))\<lparr>attributes := red_attributes\<rparr>,
        new_shape (Marker [1, 2::int]), new_shape (Polyline [[0, 0], [1, 1]])] ! 0)
     = other (all_shapes (calls (observed sample_objects (returning materialize)
         (WktParser two_statements) noop example_configuration example_layer [])) ! 0)
   \<and> shape_field ''highlightAttributes''
        ([(new_shape (Marker [19, 23]))\<lparr>attributes := red_attributes\<rparr>,
          new_shape (Marker [1, 2::int]), new_shape (Polyline [[0, 0], [1, 1]])] ! 0)
     = shape_field ''highlightAttributes''
        (all_shapes (calls (observed sample_objects (returning materialize)
         (WktParser two_statements) noop example_configuration example_layer [])) ! 0)
   \<and> get_prop (config_returns (calls (observed sample_objects (returning materialize)
        (WktParser two_statements) noop example_configuration example_layer [])) ! 0)
        ''attributes'' 1
     = Inr (shape_field ''attributes''
        ([(new_shape (Marker [19, 23]))\<lparr>attributes := red_attributes\<rparr>,
          new_shape (Marker [1, 2::int]), new_shape (Polyline [[0, 0], [1, 1]])] ! 0))"
proof -
  let ?L = "observed sample_objects (returning materialize) (WktParser two_statements)
      noop example_configuration example_layer []"
  let ?out = "[(new_shape (Marker [19, 23]))\<lparr>attributes := red_attributes\<rparr>,
        new_shape (Marker [1, 2::int]), new_shape (Polyline [[0, 0], [1, 1]])]"
  have a: "added (calls ?L) = [?out]"
    by code_simp
  have i: "(0::nat) < length ?out"
    by simp
  have r: "''attributes'' \<in> set recognized" "''highlightAttributes'' \<in> set recognized"
    by (simp_all add: recognized_def)
  have absent: "\<not> has_prop (config_returns (calls ?L) ! 0) ''highlightAttributes''"
    by code_simp
  have changed: "shape_field ''attributes'' (?out ! 0)
      \<noteq> shape_field ''attributes'' (all_shapes (calls ?L) ! 0)"
    by code_simp
  note t = load_frame[OF a i, unfolded Let_def]
  from t have 1: "other (?out ! 0) = other (all_shapes (calls ?L) ! 0)" by blast
  from t r(2) absent have 2: "shape_field ''highlightAttributes'' (?out ! 0)
      = shape_field ''highlightAttributes'' (all_shapes (calls ?L) ! 0)" by blast
  from t r(1) changed have 3: "get_prop (config_returns (calls ?L) ! 0) ''attributes'' 1
      = Inr (shape_field ''attributes'' (?out ! 0))" by blast
  from a i 1 2 3 show ?thesis by (intro conjI)
qed

text \<open>
  C4, as stated: the list handed to the completion callback is the in-order concatenation
  of the roots' shapes, with no shape reordered. The completion callback is handed the
  array the layer was handed, as the layer left it: with a layer that reverses the array,
  the layer receives the three shapes in order and the completion callback receives them
  in reverse order.
\<close>

theorem load_shape_list_reordered_counterexample:
  "added (calls (observed sample_objects (returning materialize) (WktParser two_statements)
      noop example_configuration reversing_layer []))
    = [[(new_shape (Marker [19, 23]))\<lparr>attributes := red_attributes\<rparr>,
        new_shape (Marker [1, 2]), new_shape (Polyline [[0, 0], [1, 1]])]]
   \<and> completed (calls (observed sample_objects (returning materialize) (WktParser two_statements)
      noop example_configuration reversing_layer []))
    = [[new_shape (Polyline [[0, 0], [1, 1]]), new_shape (Marker [1, 2]),
        (new_shape (Marker [19, 23]))\<lparr>attributes := red_attributes\<rparr>]]
   \<and> map other (all_shapes (calls (observed sample_objects (returning materialize)
      (WktParser two_statements) noop example_configuration reversing_layer [])))
    = [Marker [19, 23], Marker [1, 2], Polyline [[0, 0], [1, 1]]]"
  by code_simp

text \<open>
  C4, amended: when the text parses, every array that load hands to the layer is the
  concatenation, in root order, of the shapes that \<^verbatim>\<open>shapes()\<close> returned for each
  root, each one configured in place: as many shapes, and the same ones in the same order.
  The completion callback is handed that array as the layer left it, so the same list
  whenever the layer leaves the array as it was. When load completes, the layer and the
  completion callback have each been handed the array once.
\<close>

theorem load_shape_list:
  assumes "T (textRepresentation this) = Inr roots"
  shows "let tr = calls (observed T S this pcc scc layer w);
             ss = map2 configured (config_returns tr) (all_shapes tr)
         in (\<forall>handed \<in> set (added tr).
               handed = ss
               \<and> length handed = length (all_shapes tr)
               \<and> map other handed = map other (all_shapes tr)
               \<and> map fst (materializations tr) = roots)
            \<and> completed tr = left tr
            \<and> (keeps_array layer \<longrightarrow> (\<forall>handed \<in> set (completed tr). handed = ss))
            \<and> (\<forall>r. result (observed T S this pcc scc layer w) = Inr r
                  \<longrightarrow> added tr = [ss] \<and> length (completed tr) = 1)"
proof -
  let ?tr = "calls (observed T S this pcc scc layer w)"
  let ?ss = "map2 configured (config_returns ?tr) (all_shapes ?tr)"
  note s = observed_summary[where T=T and this=this, OF assms refl, of S pcc scc layer w]
  have one: "added ?tr = [] \<or> added ?tr = [?ss]"
    using s by blast
  have handed: "handed = ?ss
      \<and> length handed = length (all_shapes ?tr)
      \<and> map other handed = map other (all_shapes ?tr)
      \<and> map fst (materializations ?tr) = roots"
    if h: "handed \<in> set (added ?tr)" for handed
  proof -
    from h have ne: "added ?tr \<noteq> []" by auto
    with one have a: "added ?tr = [?ss]" by blast
    with h have e: "handed = ?ss" by simp
    note o = observed_added[OF a]
    from o(4) assms have m: "map fst (materializations ?tr) = roots" by auto
    from o(2) have l: "length ?ss = length (all_shapes ?tr)" by simp
    from o(2,3) have "map other ?ss = map other (all_shapes ?tr)"
      by (rule map_other_map2_configured)
    with e l m show ?thesis by simp
  qed
  from s have c: "completed ?tr = left ?tr" by blast
  have k: "keeps_array layer \<longrightarrow> (\<forall>handed \<in> set (completed ?tr). handed = ?ss)"
  proof (intro impI ballI)
    fix handed
    assume ka: "keeps_array layer" and h: "handed \<in> set (completed ?tr)"
    from s ka have "left ?tr = [] \<or> left ?tr = added ?tr" by blast
    with c have "completed ?tr = [] \<or> completed ?tr = added ?tr" by simp
    with h have "handed \<in> set (added ?tr)" by auto
    with handed show "handed = ?ss" by blast
  qed
  have r: "\<forall>r. result (observed T S this pcc scc layer w) = Inr r
      \<longrightarrow> added ?tr = [?ss] \<and> length (completed ?tr) = 1"
  proof (intro allI impI)
    fix r assume "result (observed T S this pcc scc layer w) = Inr r"
    with s obtain pre ss' u where
      tr: "?tr = pre @ [AddRenderables ?ss (Inr ss'), CompletionCall ss' (Inr u)]"
      and pre: "added pre = []" "completed pre = []"
      by blast
    have "added ?tr = [?ss]" by (subst tr) (simp add: pre)
    moreover have "length (completed ?tr) = 1" by (subst tr) (simp add: pre)
    ultimately show "added ?tr = [?ss] \<and> length (completed ?tr) = 1" ..
  qed
  from handed have "\<forall>handed \<in> set (added ?tr). handed = ?ss
      \<and> length handed = length (all_shapes ?tr)
      \<and> map other handed = map other (all_shapes ?tr)
      \<and> map fst (materializations ?tr) = roots" ..
  with c k r show ?thesis unfolding Let_def by (intro conjI)
qed

theorem load_shape_list_witness:
  "sample_objects (textRepresentation (WktParser two_statements :: int geometry WktParser_obj))
     = Inr [Point XY (Some [19, 23]), sample_collection]
   \<and> result (observed sample_objects (returning materialize) (WktParser two_statements)
       noop example_configuration example_layer [])
     = Inr [Point XY (Some [19, 23]), sample_collection]
   \<and> keeps_array (example_layer :: (int primitive shape list, int primitive shape list, int primitive shape list) extfun)
   \<and> added (calls (observed sample_objects (returning materialize) (WktParser two_statements)
       noop example_configuration example_layer []))
     = [[(new_shape (Marker [19, 23]))\<lparr>attributes := red_attributes\<rparr>,
        new_shape (Marker [1, 2]), new_shape (Polyline [[0, 0], [1, 1]])]]
   \<and> completed (calls (observed sample_objects (returning materialize) (WktParser two_statements)
       noop example_configuration example_layer []))
     = [[(new_shape (Marker [19, 23]))\<lparr>attributes := red_attributes\<rparr>,
        new_shape (Marker [1, 2]), new_shape (Polyline [[0, 0], [1, 1]])]]
   \<and> map other [(new_shape (Marker [19, 23]))\<lparr>attributes := red_attributes\<rparr>,
        new_shape (Marker [1, 2::int]), new_shape (Polyline [[0, 0], [1, 1]])]
     = map other (all_shapes (calls (observed sample_objects (returning materialize)
        (WktParser two_statements) noop example_configuration example_layer [])))
   \<and> map fst (materializations (calls (observed sample_objects (returning materialize)
        (WktParser two_statements) noop example_configuration example_layer [])))
     = [Point XY (Some [19, 23]), sample_collection]"
proof -
  let ?L = "observed sample_objects (returning materialize) (WktParser two_statements)
       noop example_configuration example_layer []"
  let ?out = "[(new_shape (Marker [19, 23]))\<lparr>attributes := red_attributes\<rparr>,
        new_shape (Marker [1, 2::int]), new_shape (Polyline [[0, 0], [1, 1]])]"
  have p: "sample_objects (textRepresentation (WktParser two_statements :: int geometry WktParser_obj))
     = Inr [Point XY (Some [19, 23]), sample_collection]"
    by code_simp
  have h: "result ?L = Inr [Point XY (Some [19, 23]), sample_collection]"
    by code_simp
  have k: "keeps_array (example_layer :: (int primitive shape list, int primitive shape list, int primitive shape list) extfun)"
    by (simp add: keeps_array_def example_layer_def)
  have e: "map2 configured (config_returns (calls ?L)) (all_shapes (calls ?L)) = ?out"
    by code_simp
  note t = load_shape_list[where T=sample_objects and this="WktParser two_statements"
      and S="returning materialize" and pcc=noop and scc=example_configuration
      and layer=example_layer and w="[] :: int primitive shape list", OF p, unfolded Let_def e]
  from t h have a: "added (calls ?L) = [?out]" and n: "length (completed (calls ?L)) = 1"
    by blast+
  have i: "?out \<in> set (added (calls ?L))" unfolding a by simp
  from t i have m: "map other ?out = map other (all_shapes (calls ?L))"
    and f: "map fst (materializations (calls ?L)) = [Point XY (Some [19, 23]), sample_collection]"
    by blast+
  from t k have b: "\<forall>handed \<in> set (completed (calls ?L)). handed = ?out" by blast
  from n obtain x where x: "completed (calls ?L) = [x]"
    by (cases "completed (calls ?L)") simp_all
  with b have "x = ?out" by simp
  with x have c: "completed (calls ?L) = [?out]" by simp
  from p h k a c m f show ?thesis by (intro conjI)
qed

text \<open>
  C5: when the parse fails, load ends with the parser's error and has left the caller's
  world as it was; run with a materializer, callbacks and a layer that record their calls,
  it ends with no call recorded (neither \<^verbatim>\<open>shapes()\<close>, nor a callback, nor
  \<^verbatim>\<open>layer.addRenderables\<close>).
\<close>

theorem load_parse_error:
  assumes "T (textRepresentation this) = Inl e"
  shows "load T S this pcc scc layer w = \<lparr>result = Inl e, world = w\<rparr>
         \<and> observed T S' this pcc' scc' layer' w' = \<lparr>result = Inl e, world = (w', [])\<rparr>"
  using assms by (simp add: load_def observed_def)

theorem load_parse_error_witness:
  "sample_objects (textRepresentation (WktParser ''POINT (1 2'' :: int geometry WktParser_obj))
     = Inl (SyntaxError '')'' ''end of input'' 10)
   \<and> load sample_objects (returning materialize) (WktParser ''POINT (1 2'')
       (Some noop) (Some example_configuration) example_layer []
     = \<lparr>result = Inl (SyntaxError '')'' ''end of input'' 10), world = []\<rparr>
   \<and> observed sample_objects (returning materialize) (WktParser ''POINT (1 2'')
       noop example_configuration example_layer []
     = \<lparr>result = Inl (SyntaxError '')'' ''end of input'' 10), world = ([], [])\<rparr>"
proof -
  have p: "sample_objects (textRepresentation (WktParser ''POINT (1 2'' :: int geometry WktParser_obj))
     = Inl (SyntaxError '')'' ''end of input'' 10)"
    by code_simp
  note t = load_parse_error[where T=sample_objects and this="WktParser ''POINT (1 2''", OF p]
  from p t[THEN conjunct1] t[THEN conjunct2] show ?thesis by (intro conjI)
qed

text \<open>
  C6: when the text parses, load returns nothing but the parsed roots, in their order (not
  the shape list), and a run that returns has called \<^verbatim>\<open>shapes()\<close> exactly once on
  each root, in order; a run that stops early has called it once on each root of an
  initial segment. Load does return the roots when nothing throws: neither
  \<^verbatim>\<open>shapes()\<close>, nor a callback, nor the read of a recognized field of a returned
  configuration, nor the layer.
\<close>

theorem load_returns_roots:
  assumes "T (textRepresentation this) = Inr roots"
  shows "(\<forall>r. result (observed T S this pcc scc layer w) = Inr r
            \<longrightarrow> r = roots
                \<and> materialized (calls (observed T S this pcc scc layer w)) = roots
                \<and> map fst (materializations (calls (observed T S this pcc scc layer w))) = roots)
         \<and> (\<exists>j. materialized (calls (observed T S this pcc scc layer w)) = take j roots)
         \<and> (never_throws S \<and> never_throws scc \<and> returns_readable scc
              \<and> never_throws pcc \<and> never_throws layer
            \<longrightarrow> result (observed T S this pcc scc layer w) = Inr roots
                \<and> result (load T S this (Some pcc) (Some scc) layer w) = Inr roots)
         \<and> (never_throws S \<and> never_throws layer
            \<longrightarrow> result (load T S this None None layer w) = Inr roots)"
proof -
  let ?tr = "calls (observed T S this pcc scc layer w)"
  note s = observed_summary[where T=T and this=this, OF assms refl, of S pcc scc layer w]
  have 1: "\<forall>r. result (observed T S this pcc scc layer w) = Inr r
            \<longrightarrow> r = roots \<and> materialized ?tr = roots \<and> map fst (materializations ?tr) = roots"
  proof (intro allI impI)
    fix r assume r: "result (observed T S this pcc scc layer w) = Inr r"
    with s have e: "r = roots" by blast
    from r s obtain pre ss' u where
      tr: "?tr = pre @ [AddRenderables (map2 configured (config_returns ?tr) (all_shapes ?tr)) (Inr ss'),
                        CompletionCall ss' (Inr u)]"
      and pre: "added pre = []"
      by blast
    have "added ?tr \<noteq> []" by (subst tr) simp
    with s have "materialized ?tr = roots" "map fst (materializations ?tr) = roots" by blast+
    with e show "r = roots \<and> materialized ?tr = roots \<and> map fst (materializations ?tr) = roots"
      by simp
  qed
  from s have 2: "\<exists>j. materialized ?tr = take j roots" by blast
  have 3: "never_throws S \<and> never_throws scc \<and> returns_readable scc
              \<and> never_throws pcc \<and> never_throws layer
            \<longrightarrow> result (observed T S this pcc scc layer w) = Inr roots
                \<and> result (load T S this (Some pcc) (Some scc) layer w) = Inr roots"
  proof
    assume n: "never_throws S \<and> never_throws scc \<and> returns_readable scc
              \<and> never_throws pcc \<and> never_throws layer"
    have "result (load T S this (Some pcc) (Some scc) layer w) = Inr roots"
      by (rule load_never_throws[where T=T and this=this, OF assms]) (simp_all add: n or_noop_def)
    then show "result (observed T S this pcc scc layer w) = Inr roots
        \<and> result (load T S this (Some pcc) (Some scc) layer w) = Inr roots"
      by (simp add: observed_load)
  qed
  have 4: "never_throws S \<and> never_throws layer
            \<longrightarrow> result (load T S this None None layer w) = Inr roots"
  proof
    assume n: "never_throws S \<and> never_throws layer"
    have o: "or_noop None = noop" by (simp add: or_noop_def)
    show "result (load T S this None None layer w) = Inr roots"
      by (rule load_never_throws[where T=T and this=this, OF assms])
         (simp_all add: n o noop_never_throws noop_returns_readable)
  qed
  from 1 2 3 4 show ?thesis by (intro conjI)
qed

theorem load_returns_roots_witness:
  "sample_objects (textRepresentation (WktParser two_statements :: int geometry WktParser_obj))
     = Inr [Point XY (Some [19, 23]), sample_collection]
   \<and> never_throws (returning materialize :: (int geometry, int primitive shape list, int primitive shape list) extfun)
   \<and> never_throws (example_configuration :: (int geometry, jsval, int primitive shape list) extfun)
   \<and> returns_readable (example_configuration :: (int geometry, jsval, int primitive shape list) extfun)
   \<and> never_throws (noop :: (int primitive shape list, jsval, int primitive shape list) extfun)
   \<and> never_throws (example_layer :: (int primitive shape list, int primitive shape list, int primitive shape list) extfun)
   \<and> result (observed sample_objects (returning materialize) (WktParser two_statements)
       noop example_configuration example_layer [])
     = Inr [Point XY (Some [19, 23]), sample_collection]
   \<and> materialized (calls (observed sample_objects (returning materialize) (WktParser two_statements)
       noop example_configuration example_layer []))
     = [Point XY (Some [19, 23]), sample_collection]"
proof -
  let ?L = "observed sample_objects (returning materialize) (WktParser two_statements)
       noop example_configuration example_layer []"
  have p: "sample_objects (textRepresentation (WktParser two_statements :: int geometry WktParser_obj))
     = Inr [Point XY (Some [19, 23]), sample_collection]"
    by code_simp
  have n1: "never_throws (returning materialize :: (int geometry, int primitive shape list, int primitive shape list) extfun)"
    by (simp add: never_throws_def returning_def)
  have n2: "never_throws (example_configuration :: (int geometry, jsval, int primitive shape list) extfun)"
    by (simp add: never_throws_def example_configuration_def returning_def)
  have n3: "returns_readable (example_configuration :: (int geometry, jsval, int primitive shape list) extfun)"
    by (auto simp: returns_readable_def example_configuration_def returning_def
        example_record_def readable_def recognized_def guarded_read_def and_prop_def bind_err_def
        red_attributes_def split: geometry.splits)
  have n4: "never_throws (noop :: (int primitive shape list, jsval, int primitive shape list) extfun)"
    by (simp add: never_throws_def noop_def)
  have n5: "never_throws (example_layer :: (int primitive shape list, int primitive shape list, int primitive shape list) extfun)"
    by (simp add: never_throws_def example_layer_def)
  note t = load_returns_roots[where T=sample_objects and this="WktParser two_statements"
      and S="returning materialize" and pcc=noop and scc=example_configuration
      and layer=example_layer and w="[] :: int primitive shape list", OF p]
  from t n1 n2 n3 n4 n5 have r: "result ?L = Inr [Point XY (Some [19, 23]), sample_collection]"
    by blast
  from t r have m: "materialized (calls ?L) = [Point XY (Some [19, 23]), sample_collection]"
    by blast
  from p n1 n2 n3 n4 n5 r m show ?thesis by (intro conjI)
qed

text \<open>
  C8: a missing callback is a callback that does nothing: load with a callback left out
  is load with \<^verbatim>\<open>function(){}\<close> in its place, whatever the input. With both left out
  and a materializer without effects, the only errors are the parser's and the layer's,
  the roots are returned when the layer accepts the array, and a layer that records its
  calls has recorded one call, with the materialized shapes unchanged, when the text
  parses and none when it does not.
\<close>

theorem load_missing_callbacks:
  "load T S this None None layer w = load T S this (Some noop) (Some noop) layer w
   \<and> load T S this pcc None layer w = load T S this pcc (Some noop) layer w
   \<and> load T S this None scc layer w = load T S this (Some noop) scc layer w
   \<and> result (load T (returning f) this None None layer w)
       = (case T (textRepresentation this) of
            Inl e \<Rightarrow> Inl e
          | Inr roots \<Rightarrow>
              (case fst (layer (concat (map f roots)) w) of
                 Inl e \<Rightarrow> Inl e
               | Inr u \<Rightarrow> Inr roots))
   \<and> calls (load T (returning f) this None None (recording AddRenderables layer) (w, []))
       = (case T (textRepresentation this) of
            Inl e \<Rightarrow> []
          | Inr roots \<Rightarrow>
              [AddRenderables (concat (map f roots)) (fst (layer (concat (map f roots)) w))])
   \<and> added (calls (load T (returning f) this None None (recording AddRenderables layer) (w, [])))
       = (case T (textRepresentation this) of
            Inl e \<Rightarrow> []
          | Inr roots \<Rightarrow> [concat (map f roots)])"
proof -
  have 1: "load T S this None None layer w = load T S this (Some noop) (Some noop) layer w"
    and 2: "load T S this pcc None layer w = load T S this pcc (Some noop) layer w"
    and 3: "load T S this None scc layer w = load T S this (Some noop) scc layer w"
    unfolding load_def or_noop_def option.case by (rule refl)+
  have 4: "result (load T (returning f) this None None layer w)
       = (case T (textRepresentation this) of
            Inl e \<Rightarrow> Inl e
          | Inr roots \<Rightarrow>
              (case fst (layer (concat (map f roots)) w) of
                 Inl e \<Rightarrow> Inl e
               | Inr u \<Rightarrow> Inr roots))"
    unfolding load_returning_noop by (simp split: sum.splits prod.splits)
  have 5: "calls (load T (returning f) this None None (recording AddRenderables layer) (w, []))
       = (case T (textRepresentation this) of
            Inl e \<Rightarrow> []
          | Inr roots \<Rightarrow>
              [AddRenderables (concat (map f roots)) (fst (layer (concat (map f roots)) w))])"
    unfolding load_returning_noop
    by (auto simp: calls_def recording_def split: sum.splits prod.splits)
  have 6: "added (calls (load T (returning f) this None None (recording AddRenderables layer) (w, [])))
       = (case T (textRepresentation this) of
            Inl e \<Rightarrow> []
          | Inr roots \<Rightarrow> [concat (map f roots)])"
    unfolding 5 by (simp split: sum.splits)
  from 1 2 3 4 5 6 show ?thesis by (intro conjI)
qed

theorem load_missing_callbacks_witness:
  "load sample_objects (returning materialize) (WktParser two_statements) None None example_layer []
     = load sample_objects (returning materialize) (WktParser two_statements) (Some noop) (Some noop)
         example_layer []
   \<and> result (load sample_objects (returning materialize) (WktParser two_statements) None None
        example_layer [])
     = Inr [Point XY (Some [19, 23]), sample_collection]
   \<and> added (calls (load sample_objects (returning materialize) (WktParser two_statements) None None
        (recording AddRenderables example_layer) ([], [])))
     = [[new_shape (Marker [19, 23]), new_shape (Marker [1, 2]),
         new_shape (Polyline [[0, 0], [1, 1]])]]"
proof -
  note t = load_missing_callbacks[of sample_objects "returning materialize"
      "WktParser two_statements" example_layer "[] :: int primitive shape list" None None
      materialize]
  have p: "sample_objects (textRepresentation (WktParser two_statements :: int geometry WktParser_obj))
     = Inr [Point XY (Some [19, 23]), sample_collection]"
    by code_simp
  have l: "fst (example_layer (concat (map materialize [Point XY (Some [19, 23]), sample_collection]))
      ([] :: int primitive shape list))
     = Inr [new_shape (Marker [19, 23]), new_shape (Marker [1, 2]),
         new_shape (Polyline [[0, 0], [1, 1]])]"
    by code_simp
  have m: "concat (map materialize [Point XY (Some [19, 23]), sample_collection])
     = [new_shape (Marker [19, 23]), new_shape (Marker [1, 2::int]),
         new_shape (Polyline [[0, 0], [1, 1]])]"
    by code_simp
  from t have 1: "load sample_objects (returning materialize) (WktParser two_statements) None None example_layer []
     = load sample_objects (returning materialize) (WktParser two_statements) (Some noop) (Some noop)
         example_layer []" by (rule conjunct1)
  note 2 = t[THEN conjunct2, THEN conjunct2, THEN conjunct2, THEN conjunct1,
      unfolded p sum.case l]
  note 3 = t[THEN conjunct2, THEN conjunct2, THEN conjunct2, THEN conjunct2, THEN conjunct2,
      unfolded p sum.case m]
  from 1 2 3 show ?thesis by (intro conjI)
qed

text \<open>
  C9, as stated: only truthy field values are assigned. The field is read twice, once in
  the condition and once in the assignment, and what is assigned is the second read: with
  a record whose \<^verbatim>\<open>attributes\<close> is an accessor property that gives red attributes
  at the first read and the empty string at the second, the shape handed to the layer has
  the empty string for its attributes.
\<close>

theorem load_assigns_falsy_counterexample:
  "added (calls (observed sample_objects (returning materialize) (WktParser ''POINT (19 23)'')
      noop (returning (\<lambda>g. changing_record)) example_layer []))
    = [[(new_shape (Marker [19, 23]))\<lparr>attributes := JSString []\<rparr>]]
   \<and> all_shapes (calls (observed sample_objects (returning materialize)
        (WktParser ''POINT (19 23)'') noop (returning (\<lambda>g. changing_record)) example_layer []))
    = [new_shape (Marker [19, 23])]
   \<and> config_returns (calls (observed sample_objects (returning materialize)
        (WktParser ''POINT (19 23)'') noop (returning (\<lambda>g. changing_record)) example_layer []))
    = [changing_record]
   \<and> attributes (new_shape (Marker [19, 23::int])) = JSNull
   \<and> truthy (JSString []) = False"
  by code_simp

text \<open>
  C9, amended: for each shape handed to the layer and each recognized field: if the first
  read of the field in the returned configuration gives a falsy value, the shape's field
  is as it was, and the shape handed to the layer is the one that the configuration
  without that field gives; a field that changed is one whose first read gave a truthy
  value, and it holds what the second read gave; when the field is a data property, the
  two reads agree, and a field that changed holds a truthy value.
\<close>

theorem load_falsy_field:
  assumes "added (calls (observed T S this pcc scc layer w)) = [out]"
    and "i < length out"
    and "n \<in> set recognized"
  shows "let c = config_returns (calls (observed T S this pcc scc layer w)) ! i;
             s = all_shapes (calls (observed T S this pcc scc layer w)) ! i;
             s' = out ! i
         in (\<forall>g. get_prop c n 0 = Inr g \<and> \<not> truthy g
               \<longrightarrow> shape_field n s' = shape_field n s \<and> configure (omit n c) s = Inr s')
            \<and> (shape_field n s' \<noteq> shape_field n s
                 \<longrightarrow> (\<exists>g. get_prop c n 0 = Inr g \<and> truthy g)
                     \<and> get_prop c n 1 = Inr (shape_field n s'))
            \<and> (data_prop c n \<and> shape_field n s' \<noteq> shape_field n s
                 \<longrightarrow> truthy (shape_field n s'))"
proof -
  let ?c = "config_returns (calls (observed T S this pcc scc layer w)) ! i"
  let ?s = "all_shapes (calls (observed T S this pcc scc layer w)) ! i"
  note c = observed_shape(1)[OF assms(1,2)]
  note f = shape_field_configure[OF c assms(3)]
  have 1: "\<forall>g. get_prop ?c n 0 = Inr g \<and> \<not> truthy g
      \<longrightarrow> shape_field n (out ! i) = shape_field n ?s \<and> configure (omit n ?c) ?s = Inr (out ! i)"
  proof (intro allI impI)
    fix g assume "get_prop ?c n 0 = Inr g \<and> \<not> truthy g"
    then have g: "get_prop ?c n 0 = Inr g" "\<not> truthy g" by simp_all
    from g have "shape_field n (out ! i) = shape_field n ?s"
      unfolding f by (rule pick_falsy)
    moreover from g have "guarded_read ?c n = Inr None" by (rule guarded_read_falsy)
    then have "configure (omit n ?c) ?s = configure ?c ?s" by (rule configure_omit)
    then have "configure (omit n ?c) ?s = Inr (out ! i)" by (simp only: c)
    ultimately show "shape_field n (out ! i) = shape_field n ?s
        \<and> configure (omit n ?c) ?s = Inr (out ! i)" ..
  qed
  have 2: "shape_field n (out ! i) \<noteq> shape_field n ?s
      \<longrightarrow> (\<exists>g. get_prop ?c n 0 = Inr g \<and> truthy g)
          \<and> get_prop ?c n 1 = Inr (shape_field n (out ! i))"
    unfolding f using pick_changed[of ?c n "shape_field n ?s"] by blast
  have 3: "data_prop ?c n \<and> shape_field n (out ! i) \<noteq> shape_field n ?s
      \<longrightarrow> truthy (shape_field n (out ! i))"
    unfolding f using pick_data[of ?c n "shape_field n ?s"] by blast
  from 1 2 3 show ?thesis unfolding Let_def by (intro conjI)
qed

theorem load_falsy_field_witness:
  "added (calls (observed sample_objects (returning materialize) (WktParser two_statements)
      noop (returning (\<lambda>g. falsy_record)) example_layer []))
    = [[(new_shape (Marker [19, 23]))\<lparr>attributes := red_attributes\<rparr>,
        (new_shape (Marker [1, 2]))\<lparr>attributes := red_attributes\<rparr>,
        (new_shape (Polyline [[0, 0], [1, 1]]))\<lparr>attributes := red_attributes\<rparr>]]
   \<and> (0::nat) < length [(new_shape (Marker [19, 23]))\<lparr>attributes := red_attributes\<rparr>,
        (new_shape (Marker [1, 2::int]))\<lparr>attributes := red_attributes\<rparr>,
        (new_shape (Polyline [[0, 0], [1, 1]]))\<lparr>attributes := red_attributes\<rparr>]
   \<and> ''pickDelegate'' \<in> set recognized
   \<and> get_prop (config_returns (calls (observed sample_objects (returning materialize)
        (WktParser two_statements) noop (returning (\<lambda>g. falsy_record)) example_layer [])) ! 0)
        ''pickDelegate'' 0
     = Inr (JSNumber (Finite False 0 0))
   \<and> truthy (JSNumber (Finite False 0 0)) = False
   \<and> shape_field ''pickDelegate''
        ([(new_shape (Marker [19, 23]))\<lparr>attributes := red_attributes\<rparr>,
          (new_shape (Marker [1, 2::int]))\<lparr>attributes := red_attributes\<rparr>,
          (new_shape (Polyline [[0, 0], [1, 1]]))\<lparr>attributes := red_attributes\<rparr>] ! 0)
     = shape_field ''pickDelegate''
        (all_shapes (calls (observed sample_objects (returning materialize)
          (WktParser two_statements) noop (returning (\<lambda>g. falsy_record)) example_layer [])) ! 0)
   \<and> configure (omit ''pickDelegate''
        (config_returns (calls (observed sample_objects (returning materialize)
          (WktParser two_statements) noop (returning (\<lambda>g. falsy_record)) example_layer [])) ! 0))
        (all_shapes (calls (observed sample_objects (returning materialize)
          (WktParser two_statements) noop (returning (\<lambda>g. falsy_record)) example_layer [])) ! 0)
     = Inr ([(new_shape (Marker [19, 23]))\<lparr>attributes := red_attributes\<rparr>,
          (new_shape (Marker [1, 2::int]))\<lparr>attributes := red_attributes\<rparr>,
          (new_shape (Polyline [[0, 0], [1, 1]]))\<lparr>attributes := red_attributes\<rparr>] ! 0)
   \<and> truthy (shape_field ''attributes''
        ([(new_shape (Marker [19, 23]))\<lparr>attributes := red_attributes\<rparr>,
          (new_shape (Marker [1, 2::int]))\<lparr>attributes := red_attributes\<rparr>,
          (new_shape (Polyline [[0, 0], [1, 1]]))\<lparr>attributes := red_attributes\<rparr>] ! 0))"
proof -
  let ?L = "observed sample_objects (returning materialize) (WktParser two_statements)
      noop (returning (\<lambda>g. falsy_record)) example_layer []"
  let ?out = "[(new_shape (Marker [19, 23]))\<lparr>attributes := red_attributes\<rparr>,
        (new_shape (Marker [1, 2::int]))\<lparr>attributes := red_attributes\<rparr>,
        (new_shape (Polyline [[0, 0], [1, 1]]))\<lparr>attributes := red_attributes\<rparr>]"
  have a: "added (calls ?L) = [?out]"
    by code_simp
  have i: "(0::nat) < length ?out"
    by simp
  have r: "''pickDelegate'' \<in> set recognized" "''attributes'' \<in> set recognized"
    by (simp_all add: recognized_def)
  have g: "get_prop (config_returns (calls ?L) ! 0) ''pickDelegate'' 0
      = Inr (JSNumber (Finite False 0 0))"
    by code_simp
  have f: "truthy (JSNumber (Finite False 0 0)) = False"
    by code_simp
  have d: "data_prop (config_returns (calls ?L) ! 0) ''attributes''"
    by code_simp
  have changed: "shape_field ''attributes'' (?out ! 0)
      \<noteq> shape_field ''attributes'' (all_shapes (calls ?L) ! 0)"
    by code_simp
  note t1 = load_falsy_field[OF a i r(1), unfolded Let_def]
  note t2 = load_falsy_field[OF a i r(2), unfolded Let_def]
  from f have nf: "\<not> truthy (JSNumber (Finite False 0 0))" by simp
  from t1 g nf have 1: "shape_field ''pickDelegate'' (?out ! 0)
      = shape_field ''pickDelegate'' (all_shapes (calls ?L) ! 0)"
    and 2: "configure (omit ''pickDelegate'' (config_returns (calls ?L) ! 0))
        (all_shapes (calls ?L) ! 0) = Inr (?out ! 0)"
    by blast+
  from t2 d changed have 3: "truthy (shape_field ''attributes'' (?out ! 0))"
    by blast
  from a i r(1) g f 1 2 3 show ?thesis by (intro conjI)
qed



end
